theory Spec2Isabelle
  imports Complex_Main
begin

section \<open>Python values shared by the services\<close>

text \<open>
  Exceptions are values. The sale services raise \<^verbatim>\<open>ValueError\<close> with a formatted
  message; the message is kept structured (one constructor per format string of
  \<^verbatim>\<open>services.py\<close>) instead of being rendered to text. The marshmallow schemas raise
  \<^verbatim>\<open>ValidationError\<close> with the messages collected, and an unbound global name raises
  \<^verbatim>\<open>NameError\<close>.
\<close>

datatype db_op = BulkLoad | TaxLookup | CreateSale | StockUpdate | Commit

datatype failure =
    ProductNotFound int
  | InsufficientStock string
  | DatabaseError db_op
  | AttributeError string
  | InvalidOperation

datatype error_message =
    CannotProcessEmptySale
  | InvalidMethodForPayNow "string option"
  | InvalidMethodForPayLater "string option"
  | CustomerNameRequired
  | InvalidPaymentMode
  | MissingCartField string
  | CheckoutProcessingFailed failure

datatype validation_message =
    MissingRequiredField string
  | NotOneOf string
  | PaymentMethodRequired
  | MustBeCashOrMobile
  | CustomerNameRequiredForPayLater
  | MustBePayOnDeliveryOrAbsent

datatype py_exception =
    ValueError error_message
  | ValidationError "validation_message list"
  | NameError string

text \<open>Truthiness of an optional string: \<^verbatim>\<open>None\<close> and \<^verbatim>\<open>''\<close> are falsy.\<close>

definition truthy :: "string option \<Rightarrow> bool" where
  "truthy s = (case s of None \<Rightarrow> False | Some t \<Rightarrow> t \<noteq> [])"

section \<open>Decimal arithmetic\<close>

text \<open>
  A \<^verbatim>\<open>decimal.Decimal\<close> is modelled by its value, a rational. \<^verbatim>\<open>Decimal(str(x))\<close>
  is exact. Multiplication, division, addition and subtraction return the exact result
  rounded to the precision of the default context, 28 significant digits, half to even
  (\<^verbatim>\<open>prec=28, rounding=ROUND_HALF_EVEN\<close>); a result that fits in 28 digits is returned
  as it is. The exponent limits of the context (\<^verbatim>\<open>Emax = 999999\<close>) are not modelled,
  and a value handed on through \<^verbatim>\<open>float(...)\<close> is kept as it is, without the rounding
  to a binary float.
\<close>

definition round_half_even :: "rat \<Rightarrow> int" where
  "round_half_even x =
     (let f = \<lfloor>x\<rfloor>; d = x - of_int f
      in if d < 1/2 then f
         else if 1/2 < d then f + 1
         else if even f then f else f + 1)"

text \<open>The number of decimal digits of a natural number.\<close>

fun digits :: "nat \<Rightarrow> nat" where
  "digits n = (if n < 10 then 1 else Suc (digits (n div 10)))"

text \<open>
  The exponent of the leading digit of a non-zero value (\<^verbatim>\<open>Decimal.adjusted()\<close>): the
  \<open>k\<close> with \<open>10 powi k \<le> \<bar>x\<bar> < 10 powi (k + 1)\<close>, found from the digit counts of numerator
  and denominator.
\<close>

definition adjusted :: "rat \<Rightarrow> int" where
  "adjusted x =
     (let (a, b) = quotient_of \<bar>x\<bar>;
          d = int (digits (nat a)) - int (digits (nat b))
      in if 10 powi d \<le> \<bar>x\<bar> then d else d - 1)"

text \<open>Rounding to 28 significant digits, half to even.\<close>

definition ctx_round :: "rat \<Rightarrow> rat" where
  "ctx_round x =
     (if x = 0 then 0
      else let e = adjusted x - 27
           in of_int (round_half_even (x / 10 powi e)) * 10 powi e)"

definition dec_mul :: "rat \<Rightarrow> rat \<Rightarrow> rat" where
  "dec_mul x y = ctx_round (x * y)"

definition dec_div :: "rat \<Rightarrow> rat \<Rightarrow> rat" where
  "dec_div x y = ctx_round (x / y)"

definition dec_add :: "rat \<Rightarrow> rat \<Rightarrow> rat" where
  "dec_add x y = ctx_round (x + y)"

definition dec_sub :: "rat \<Rightarrow> rat \<Rightarrow> rat" where
  "dec_sub x y = ctx_round (x - y)"

text \<open>
  \<^verbatim>\<open>to_integral_value(rounding=ROUND_UP)\<close> rounds away from zero and does not apply the
  context precision.
\<close>

definition to_integral_ROUND_UP :: "rat \<Rightarrow> rat" where
  "to_integral_ROUND_UP x = (if 0 \<le> x then of_int \<lceil>x\<rceil> else of_int \<lfloor>x\<rfloor>)"

text \<open>Lines 148-149: a division, the rounding to an integer, a multiplication.\<close>

definition round_up_to_nearest_five :: "rat \<Rightarrow> rat" where
  "round_up_to_nearest_five amount = dec_mul (to_integral_ROUND_UP (dec_div amount 5)) 5"

text \<open>
  \<^verbatim>\<open>quantize(Decimal('0.01'))\<close> rounds to two decimal places, half to even, and raises
  \<^verbatim>\<open>InvalidOperation\<close> when the coefficient of the result, the number of hundredths,
  has more than 28 digits.
\<close>

definition quantize_cents :: "rat \<Rightarrow> failure + rat" where
  "quantize_cents x =
     (let hundredths = round_half_even (x * 100)
      in if 10 ^ 28 \<le> \<bar>hundredths\<bar> then Inl InvalidOperation
         else Inr (of_int hundredths / 100))"

section \<open>Persistent records and the database session\<close>

datatype sale_status = COMPLETED | PENDING

record product =
  product_id :: int
  product_shop_id :: int
  product_name :: string
  product_stock :: rat
  product_cost_price :: rat

record sale =
  sale_id :: int
  sale_shop_id :: int
  sale_user_id :: int
  sale_payment_mode :: string
  sale_payment_method :: "string option"
  sale_customer_name :: "string option"
  sale_customer_phone :: "string option"
  sale_notes :: "string option"

record cart_item =
  ci_sale_id :: int
  ci_shop_id :: int
  ci_product_id :: int
  ci_quantity :: rat
  ci_unit_price :: rat
  ci_total_price :: rat

record tables =
  product_rows :: "product list"
  sale_rows :: "sale list"
  cart_item_rows :: "cart_item list"

text \<open>
  \<^verbatim>\<open>db.session\<close>: the rows as committed, visible to every reader, and the rows as the
  open transaction sees them. \<^verbatim>\<open>commit\<close> publishes the transaction's rows,
  \<^verbatim>\<open>rollback\<close> discards them.
\<close>

record db_session =
  committed :: tables
  working :: tables

definition commit :: "db_session \<Rightarrow> db_session" where
  "commit s = s\<lparr>committed := working s\<rparr>"

definition rollback :: "db_session \<Rightarrow> db_session" where
  "rollback s = s\<lparr>working := committed s\<rparr>"

text \<open>
  Modelled from the spec: \<^verbatim>\<open>ProductRepository.get_bulk_for_sale\<close> is not under src/.
  Step 4 of the checkout: "Bulk-load the referenced products scoped to the shop".
\<close>

definition get_bulk_for_sale :: "tables \<Rightarrow> int list \<Rightarrow> int \<Rightarrow> product list" where
  "get_bulk_for_sale t product_ids shop =
     filter (\<lambda>p. product_id p \<in> set product_ids \<and> product_shop_id p = shop) (product_rows t)"

text \<open>
  One staged line of \<^verbatim>\<open>cart_item_data\<close>, and the arguments of
  \<^verbatim>\<open>SaleRepository.create_sale\<close>.
\<close>

record line_data =
  ld_shop_id :: int
  ld_product_id :: int
  ld_quantity :: rat
  ld_unit_price :: rat
  ld_total_price :: rat

definition fresh_sale_id :: "tables \<Rightarrow> int" where
  "fresh_sale_id t = fold max (map sale_id (sale_rows t)) 0 + 1"

text \<open>
  Modelled from the spec: \<^verbatim>\<open>SaleRepository.create_sale\<close> is not under src/.
  Step 9 of the checkout: "Persist the Sale and its CartItem lines in one transaction
  (create sale with staged lines, payment mode/method, customer name/phone/notes)".
  The rows are added inside the open transaction and the new sale is returned. The row
  holds what the service hands over; the columns the repository derives on its own
  are left out.
\<close>

definition create_sale ::
  "tables \<Rightarrow> int \<Rightarrow> int \<Rightarrow> line_data list \<Rightarrow> string \<Rightarrow> string option \<Rightarrow>
   string option \<Rightarrow> string option \<Rightarrow> string option \<Rightarrow> sale \<times> tables" where
  "create_sale t shop user lines payment_mode payment_method name phone notes =
     (let new_sale = \<lparr>sale_id = fresh_sale_id t, sale_shop_id = shop, sale_user_id = user,
                       sale_payment_mode = payment_mode, sale_payment_method = payment_method,
                       sale_customer_name = name, sale_customer_phone = phone,
                       sale_notes = notes\<rparr>;
          rows = map (\<lambda>l. \<lparr>ci_sale_id = sale_id new_sale, ci_shop_id = ld_shop_id l,
                              ci_product_id = ld_product_id l, ci_quantity = ld_quantity l,
                              ci_unit_price = ld_unit_price l,
                              ci_total_price = ld_total_price l\<rparr>) lines
      in (new_sale, t\<lparr>sale_rows := sale_rows t @ [new_sale],
                     cart_item_rows := cart_item_rows t @ rows\<rparr>))"

text \<open>
  The batched \<^verbatim>\<open>UPDATE product SET stock = :new_stock WHERE id = :p_id\<close>: one
  statement per parameter set, executed in list order.
\<close>

fun apply_stock_updates :: "(int \<times> rat) list \<Rightarrow> product list \<Rightarrow> product list" where
  "apply_stock_updates [] ps = ps"
| "apply_stock_updates ((p_id, new_stock) # us) ps =
     apply_stock_updates us
       (map (\<lambda>p. if product_id p = p_id then p\<lparr>product_stock := new_stock\<rparr> else p) ps)"

text \<open>
  The loop of \<^verbatim>\<open>complete_pay_later_sale\<close> over the lines of the sale (lines 277-282):
  \<^verbatim>\<open>cart_item.product\<close> is the session's one object for the product, so a decrement is
  seen by the next line that names the same product. A line without a product raises
  \<^verbatim>\<open>AttributeError\<close> at \<^verbatim>\<open>product.stock\<close>.
\<close>

fun decrement_stock_for_lines :: "cart_item list \<Rightarrow> product list \<Rightarrow> failure + product list" where
  "decrement_stock_for_lines [] ps = Inr ps"
| "decrement_stock_for_lines (ci # rest) ps =
     (case find (\<lambda>p. product_id p = ci_product_id ci) ps of
        None \<Rightarrow> Inl (AttributeError ''stock'')
      | Some product \<Rightarrow>
          if product_stock product < ci_quantity ci
          then Inl (InsufficientStock (product_name product))
          else decrement_stock_for_lines rest
                 (map (\<lambda>p. if product_id p = ci_product_id ci
                           then p\<lparr>product_stock := product_stock p - ci_quantity ci\<rparr> else p) ps))"

text \<open>The stock of the product with a given id, as a reader of the tables sees it.\<close>

definition stock_of :: "tables \<Rightarrow> int \<Rightarrow> rat option" where
  "stock_of t pid = map_option product_stock (find (\<lambda>p. product_id p = pid) (product_rows t))"

section \<open>Checkout processing\<close>

text \<open>
  A cart line as received (a dict; a missing key is \<open>None\<close>), and as normalised by
  lines 119-134 of \<^verbatim>\<open>services.py\<close>.
\<close>

record raw_item =
  raw_product_id :: "int option"
  raw_quantity :: "rat option"
  raw_price :: "rat option"

record item =
  item_product_id :: int
  item_quantity :: rat
  item_price :: rat

record customer =
  cust_name :: "string option"
  cust_phone :: "string option"
  cust_notes :: "string option"

fun normalize_cart :: "raw_item list \<Rightarrow> py_exception + item list" where
  "normalize_cart [] = Inr []"
| "normalize_cart (r # rs) =
     (case raw_product_id r of
        None \<Rightarrow> Inl (ValueError (MissingCartField ''product_id''))
      | Some pid \<Rightarrow>
     (case raw_quantity r of
        None \<Rightarrow> Inl (ValueError (MissingCartField ''quantity''))
      | Some q \<Rightarrow>
     (case raw_price r of
        None \<Rightarrow> Inl (ValueError (MissingCartField ''price''))
      | Some pr \<Rightarrow>
     (case normalize_cart rs of
        Inl e \<Rightarrow> Inl e
      | Inr items \<Rightarrow>
          Inr (\<lparr>item_product_id = pid, item_quantity = q, item_price = pr\<rparr> # items)))))"

text \<open>Lines 97-116: the pairing of payment mode and method; the method as used afterwards.\<close>

definition customer_field :: "customer option \<Rightarrow> (customer \<Rightarrow> string option) \<Rightarrow> string option" where
  "customer_field customer_data field =
     (case customer_data of None \<Rightarrow> None | Some c \<Rightarrow> field c)"

definition check_payment ::
  "string \<Rightarrow> string option \<Rightarrow> customer option \<Rightarrow> py_exception + string option" where
  "check_payment payment_mode payment_method customer_data =
     (if payment_mode = ''pay_now'' then
        (if payment_method \<notin> set [Some ''cash'', Some ''mobile'']
         then Inl (ValueError (InvalidMethodForPayNow payment_method))
         else Inr payment_method)
      else if payment_mode = ''pay_later'' then
        (if truthy payment_method \<and> payment_method \<noteq> Some ''pay_on_delivery''
         then Inl (ValueError (InvalidMethodForPayLater payment_method))
         else if \<not> truthy (customer_field customer_data cust_name)
         then Inl (ValueError CustomerNameRequired)
         else Inr (Some ''pay_on_delivery''))
      else Inl (ValueError InvalidPaymentMode))"

text \<open>The accumulators of the loop over the cart (lines 143-146).\<close>

record line_acc =
  subtotal :: rat
  total_cost :: rat
  cart_item_data :: "line_data list"
  stock_updates :: "(int \<times> rat) list"

definition empty_acc :: line_acc where
  "empty_acc = \<lparr>subtotal = 0, total_cost = 0, cart_item_data = [], stock_updates = []\<rparr>"

definition product_map_of :: "product list \<Rightarrow> (int \<rightharpoonup> product)" where
  "product_map_of ps = foldl (\<lambda>m p. m(product_id p \<mapsto> p)) Map.empty ps"

text \<open>
  Lines 151-190: one pass over the cart, stopping at the first raise. The stock is a float
  column and the new stock is converted to a float as soon as it is computed (line 189);
  stock quantities and their differences are kept exact, with neither rounding.
\<close>

fun process_lines ::
  "string \<Rightarrow> int \<Rightarrow> (int \<rightharpoonup> product) \<Rightarrow> item list \<Rightarrow> line_acc \<Rightarrow> failure + line_acc" where
  "process_lines payment_mode shop product_map [] acc = Inr acc"
| "process_lines payment_mode shop product_map (it # items) acc =
     (case product_map (item_product_id it) of
        None \<Rightarrow> Inl (ProductNotFound (item_product_id it))
      | Some product \<Rightarrow>
          (let quantity = item_quantity it in
           if payment_mode = ''pay_now'' \<and> product_stock product < quantity
           then Inl (InsufficientStock (product_name product))
           else
             (let unit_price = item_price it;
                  item_subtotal = round_up_to_nearest_five (dec_mul quantity unit_price);
                  item_cost = dec_mul quantity (product_cost_price product)
              in process_lines payment_mode shop product_map items
                   \<lparr>subtotal = dec_add (subtotal acc) item_subtotal,
                    total_cost = dec_add (total_cost acc) item_cost,
                    cart_item_data = cart_item_data acc @
                      [\<lparr>ld_shop_id = shop, ld_product_id = product_id product,
                        ld_quantity = quantity, ld_unit_price = unit_price,
                        ld_total_price = item_subtotal\<rparr>],
                    stock_updates = stock_updates acc @
                      (if payment_mode = ''pay_now''
                       then [(product_id product, product_stock product - quantity)]
                       else [])\<rparr>)))"

text \<open>
  Lines 192-194. The quantization of the tax can raise; the total and the profit are a sum
  and a difference of Decimals.
\<close>

record totals =
  tax_amount :: rat
  total :: rat
  profit :: rat

definition sale_totals :: "rat \<Rightarrow> rat \<Rightarrow> rat \<Rightarrow> failure + totals" where
  "sale_totals sub cost tax_rate =
     (case quantize_cents (dec_mul sub tax_rate) of
        Inl e \<Rightarrow> Inl e
      | Inr tax \<Rightarrow>
          Inr \<lparr>tax_amount = tax, total = dec_add sub tax, profit = dec_sub sub cost\<rparr>)"

text \<open>The dict returned by a successful checkout (lines 241-250).\<close>

record checkout_result =
  res_success :: bool
  res_sale_id :: int
  res_payment_mode :: string
  res_status :: sale_status
  res_is_paid :: bool
  res_amount_paid :: rat
  res_receipt_pending :: bool
  res_customer_name :: "string option"

text \<open>
  Lines 136-250, the body of the \<^verbatim>\<open>try\<close>. The persistence layer is not under src/;
  \<open>fails\<close> says which of its operations raises, and \<open>tax_rate_of\<close> stands for
  \<^verbatim>\<open>Tax.get_tax_rate\<close>. The result is the value or the exception, with the session
  as it is at that moment. The background thread started after the commit reads the
  database only and is left out.
\<close>

definition checkout_transaction ::
  "(db_op \<Rightarrow> bool) \<Rightarrow> (int \<Rightarrow> rat) \<Rightarrow> db_session \<Rightarrow> int \<Rightarrow> int \<Rightarrow> item list \<Rightarrow>
   string \<Rightarrow> string option \<Rightarrow> customer option \<Rightarrow> (failure + checkout_result) \<times> db_session" where
  "checkout_transaction fails tax_rate_of s shop user cart payment_mode payment_method customer_data =
     (if fails BulkLoad then (Inl (DatabaseError BulkLoad), s) else
      let product_ids = map item_product_id cart;
          found = get_bulk_for_sale (working s) product_ids shop;
          product_map = product_map_of found
      in
      if fails TaxLookup then (Inl (DatabaseError TaxLookup), s) else
      let tax_rate = tax_rate_of shop in
      case process_lines payment_mode shop product_map cart empty_acc of
        Inl e \<Rightarrow> (Inl e, s)
      | Inr acc \<Rightarrow>
          case sale_totals (subtotal acc) (total_cost acc) tax_rate of
            Inl e \<Rightarrow> (Inl e, s)
          | Inr t \<Rightarrow>
          let sale_status = (if payment_mode = ''pay_now'' then COMPLETED else PENDING);
              is_paid = (payment_mode = ''pay_now'')
          in
          if fails CreateSale then (Inl (DatabaseError CreateSale), s) else
          let (new_sale, t1) =
                create_sale (working s) shop user (cart_item_data acc) payment_mode payment_method
                  (customer_field customer_data cust_name)
                  (customer_field customer_data cust_phone)
                  (customer_field customer_data cust_notes);
              s1 = s\<lparr>working := t1\<rparr>
          in
          if stock_updates acc \<noteq> [] \<and> fails StockUpdate
          then (Inl (DatabaseError StockUpdate), s1) else
          let s2 = (if stock_updates acc \<noteq> []
                    then s1\<lparr>working := t1\<lparr>product_rows :=
                           apply_stock_updates (stock_updates acc) (product_rows t1)\<rparr>\<rparr>
                    else s1)
          in
          if fails Commit then (Inl (DatabaseError Commit), s2) else
          (Inr \<lparr>res_success = True, res_sale_id = sale_id new_sale,
                res_payment_mode = payment_mode, res_status = sale_status,
                res_is_paid = is_paid,
                res_amount_paid = (if is_paid then total t else 0),
                res_receipt_pending = is_paid,
                res_customer_name = customer_field customer_data cust_name\<rparr>,
           commit s2))"

text \<open>
  \<^verbatim>\<open>SalesService.process_checkout\<close> (lines 81-255). Failures before the \<^verbatim>\<open>try\<close>
  raise at once; an exception inside it is answered by \<^verbatim>\<open>db.session.rollback()\<close> and
  re-raised as \<^verbatim>\<open>ValueError("Checkout processing failed: ...")\<close>.
\<close>

definition process_checkout ::
  "(db_op \<Rightarrow> bool) \<Rightarrow> (int \<Rightarrow> rat) \<Rightarrow> db_session \<Rightarrow> int \<Rightarrow> int \<Rightarrow> raw_item list \<Rightarrow>
   string \<Rightarrow> string option \<Rightarrow> customer option \<Rightarrow> (py_exception + checkout_result) \<times> db_session" where
  "process_checkout fails tax_rate_of s shop user cart_items payment_mode payment_method customer_data =
     (if cart_items = [] then (Inl (ValueError CannotProcessEmptySale), s)
      else case check_payment payment_mode payment_method customer_data of
        Inl e \<Rightarrow> (Inl e, s)
      | Inr method \<Rightarrow>
          (case normalize_cart cart_items of
             Inl e \<Rightarrow> (Inl e, s)
           | Inr cart \<Rightarrow>
               (case checkout_transaction fails tax_rate_of s shop user cart payment_mode method
                       customer_data of
                  (Inl e, s') \<Rightarrow> (Inl (ValueError (CheckoutProcessingFailed e)), rollback s')
                | (Inr r, s') \<Rightarrow> (Inr r, s'))))"

section \<open>The checkout request schema\<close>

text \<open>
  The fields of \<^verbatim>\<open>CheckoutSchema\<close> that the cross-field rule reads, as they arrive:
  \<open>None\<close> is a missing key or a null.
\<close>

record checkout_fields =
  cf_payment_mode :: "string option"
  cf_payment_method :: "string option"
  cf_customer_name :: "string option"

text \<open>
  The field declarations (\<^verbatim>\<open>schemas.py\<close> lines 40-55): \<^verbatim>\<open>payment_mode\<close> is required
  and one of two values; \<^verbatim>\<open>payment_method\<close> may be null and is otherwise one of three
  values; \<^verbatim>\<open>customer_name\<close> is any string or null.
\<close>

definition validate_payment_mode_field :: "string option \<Rightarrow> validation_message list" where
  "validate_payment_mode_field v =
     (case v of
        None \<Rightarrow> [MissingRequiredField ''payment_mode'']
      | Some m \<Rightarrow> if m \<in> set [''pay_now'', ''pay_later''] then [] else [NotOneOf ''payment_mode''])"

definition validate_payment_method_field :: "string option \<Rightarrow> validation_message list" where
  "validate_payment_method_field v =
     (case v of
        None \<Rightarrow> []
      | Some m \<Rightarrow> if m \<in> set [''cash'', ''mobile'', ''pay_on_delivery''] then []
                  else [NotOneOf ''payment_method''])"

text \<open>\<^verbatim>\<open>CheckoutSchema.validate_payment_fields\<close> (lines 75-99).\<close>

definition validate_payment_fields :: "checkout_fields \<Rightarrow> py_exception + checkout_fields" where
  "validate_payment_fields data =
     (let payment_mode = cf_payment_mode data;
          payment_method = cf_payment_method data;
          customer_name = cf_customer_name data
      in
      if payment_mode = Some ''pay_now'' then
        (if \<not> truthy payment_method then Inl (ValidationError [PaymentMethodRequired])
         else if payment_method \<notin> set [Some ''cash'', Some ''mobile'']
         then Inl (ValidationError [MustBeCashOrMobile])
         else Inr data)
      else if payment_mode = Some ''pay_later'' then
        (if \<not> truthy customer_name then Inl (ValidationError [CustomerNameRequiredForPayLater])
         else if truthy payment_method \<and> payment_method \<noteq> Some ''pay_on_delivery''
         then Inl (ValidationError [MustBePayOnDeliveryOrAbsent])
         else if \<not> truthy payment_method
         then Inr (data\<lparr>cf_payment_method := Some ''pay_on_delivery''\<rparr>)
         else Inr data)
      else Inr data)"

text \<open>\<^verbatim>\<open>CheckoutSchema.set_default_payment_method\<close> (lines 101-106).\<close>

definition set_default_payment_method :: "checkout_fields \<Rightarrow> checkout_fields" where
  "set_default_payment_method data =
     (if cf_payment_mode data = Some ''pay_later'' \<and> \<not> truthy (cf_payment_method data)
      then data\<lparr>cf_payment_method := Some ''pay_on_delivery''\<rparr>
      else data)"

text \<open>
  Loading a request through the schema, in marshmallow's order: the field validators; the
  \<^verbatim>\<open>validates_schema\<close> rule, which is skipped when a field failed; the
  \<^verbatim>\<open>post_load\<close> step.
\<close>

definition load_checkout :: "checkout_fields \<Rightarrow> py_exception + checkout_fields" where
  "load_checkout data =
     (case validate_payment_mode_field (cf_payment_mode data) @
           validate_payment_method_field (cf_payment_method data) of
        [] \<Rightarrow>
          (case validate_payment_fields data of
             Inl e \<Rightarrow> Inl e
           | Inr data' \<Rightarrow> Inr (set_default_payment_method data'))
      | e # es \<Rightarrow> Inl (ValidationError (e # es)))"

text \<open>
  The pairing law in the words of the specification: a request is acceptable when the mode
  is \<^verbatim>\<open>pay_now\<close> and the method is cash or mobile, or the mode is \<^verbatim>\<open>pay_later\<close>, the
  method is absent or \<^verbatim>\<open>pay_on_delivery\<close>, and a customer name is present (a non-empty
  string).
\<close>

definition pairing_law :: "string option \<Rightarrow> string option \<Rightarrow> string option \<Rightarrow> bool" where
  "pairing_law payment_mode payment_method customer_name =
     (payment_mode = Some ''pay_now''
        \<and> (payment_method = Some ''cash'' \<or> payment_method = Some ''mobile'')
      \<or> payment_mode = Some ''pay_later''
        \<and> (payment_method = None \<or> payment_method = Some ''pay_on_delivery'')
        \<and> (case customer_name of Some n \<Rightarrow> n \<noteq> [] | None \<Rightarrow> False))"

section \<open>Shop resolution\<close>

record shop =
  shop_id :: int
  shop_slug :: string
  shop_is_active :: bool

record shop_homepage_settings =
  hs_shop_id :: int
  hs_subdomain :: "string option"
  hs_custom_domain :: "string option"
  hs_is_active :: bool

text \<open>
  The tables read by \<^verbatim>\<open>get_shop_from_request\<close>, in the order the database returns
  their rows. \<open>key_of_text\<close> is the conversion of the textual \<^verbatim>\<open>shop_id\<close> query
  parameter to a primary key, which the database driver performs.
\<close>

record site =
  shop_rows :: "shop list"
  settings_rows :: "shop_homepage_settings list"
  key_of_text :: "string \<Rightarrow> int option"

record request =
  host_header :: "string option"
  arg_shop_id :: "string option"
  arg_shop_slug :: "string option"

text \<open>
  Modelled from the spec: the entity classes \<^verbatim>\<open>Shop\<close> and
  \<^verbatim>\<open>ShopHomepageSettings\<close> and their queries are not under src/. The settings are
  "one-to-one with a Shop"; \<^verbatim>\<open>filter_by(...).first()\<close> is the first matching row and
  \<^verbatim>\<open>Shop.query.get\<close> the lookup by primary key.
\<close>

definition settings_shop :: "site \<Rightarrow> shop_homepage_settings \<Rightarrow> shop option" where
  "settings_shop db hs = find (\<lambda>s. shop_id s = hs_shop_id hs) (shop_rows db)"

definition shop_settings :: "site \<Rightarrow> shop \<Rightarrow> shop_homepage_settings option" where
  "shop_settings db s = find (\<lambda>hs. hs_shop_id hs = shop_id s) (settings_rows db)"

definition settings_by_custom_domain :: "site \<Rightarrow> string \<Rightarrow> shop_homepage_settings option" where
  "settings_by_custom_domain db host =
     find (\<lambda>hs. hs_custom_domain hs = Some host \<and> hs_is_active hs) (settings_rows db)"

definition settings_by_subdomain :: "site \<Rightarrow> string \<Rightarrow> shop_homepage_settings option" where
  "settings_by_subdomain db subdomain =
     find (\<lambda>hs. hs_subdomain hs = Some subdomain \<and> hs_is_active hs) (settings_rows db)"

definition shop_query_get :: "site \<Rightarrow> string \<Rightarrow> shop option" where
  "shop_query_get db text =
     (case key_of_text db text of
        None \<Rightarrow> None
      | Some k \<Rightarrow> find (\<lambda>s. shop_id s = k) (shop_rows db))"

definition shop_by_slug :: "site \<Rightarrow> string \<Rightarrow> shop option" where
  "shop_by_slug db slug = find (\<lambda>s. shop_slug s = slug \<and> shop_is_active s) (shop_rows db)"

text \<open>\<^verbatim>\<open>request.headers.get('Host', '')\<close>.\<close>

definition request_host :: "request \<Rightarrow> string" where
  "request_host req = (case host_header req of None \<Rightarrow> [] | Some h \<Rightarrow> h)"

text \<open>\<^verbatim>\<open>host.split('.')[0]\<close>: the text before the first dot.\<close>

definition leftmost_label :: "string \<Rightarrow> string" where
  "leftmost_label host = takeWhile (\<lambda>c. c \<noteq> CHR ''.'') host"

text \<open>
  \<^verbatim>\<open>get_shop_from_request\<close> (\<^verbatim>\<open>routes.py\<close> lines 23-64), statement by statement:
  each \<^verbatim>\<open>return\<close> ends the function, each failed test falls through to the next block.
\<close>

definition from_shop_slug :: "site \<Rightarrow> request \<Rightarrow> shop option" where
  "from_shop_slug db req =
     (let shop_slug = arg_shop_slug req in
      if truthy shop_slug then
        (case shop_by_slug db (the shop_slug) of
           Some shop \<Rightarrow> Some shop
         | None \<Rightarrow> None)
      else None)"

definition from_shop_id :: "site \<Rightarrow> request \<Rightarrow> shop option" where
  "from_shop_id db req =
     (let shop_id = arg_shop_id req in
      if truthy shop_id then
        (case shop_query_get db (the shop_id) of
           Some shop \<Rightarrow>
             (case shop_settings db shop of
                Some hs \<Rightarrow> if hs_is_active hs then Some shop else from_shop_slug db req
              | None \<Rightarrow> from_shop_slug db req)
         | None \<Rightarrow> from_shop_slug db req)
      else from_shop_slug db req)"

definition from_subdomain :: "site \<Rightarrow> request \<Rightarrow> string \<Rightarrow> shop option" where
  "from_subdomain db req host =
     (if CHR ''.'' \<in> set host then
        (let subdomain = leftmost_label host in
         if subdomain \<notin> set [''www'', ''app'', ''admin'', ''api''] then
           (case settings_by_subdomain db subdomain of
              Some homepage_settings \<Rightarrow> settings_shop db homepage_settings
            | None \<Rightarrow> from_shop_id db req)
         else from_shop_id db req)
      else from_shop_id db req)"

definition get_shop_from_request :: "site \<Rightarrow> request \<Rightarrow> shop option" where
  "get_shop_from_request db req =
     (let host = request_host req in
      case settings_by_custom_domain db host of
        Some homepage_settings \<Rightarrow> settings_shop db homepage_settings
      | None \<Rightarrow> from_subdomain db req host)"

text \<open>
  The resolution order in the words of the specification: five sources tried in strict
  order, the first that matches decides. A source answers \<open>None\<close> when it does not match
  and \<open>Some\<close> of its shop when it does.
\<close>

fun first_match :: "'a option list \<Rightarrow> 'a option" where
  "first_match [] = None"
| "first_match (None # sources) = first_match sources"
| "first_match (Some x # sources) = Some x"

definition custom_domain_source :: "site \<Rightarrow> request \<Rightarrow> shop option option" where
  "custom_domain_source db req =
     map_option (settings_shop db) (settings_by_custom_domain db (request_host req))"

definition subdomain_source :: "site \<Rightarrow> request \<Rightarrow> shop option option" where
  "subdomain_source db req =
     (let host = request_host req in
      if CHR ''.'' \<in> set host
         \<and> leftmost_label host \<notin> {''www'', ''app'', ''admin'', ''api''}
      then map_option (settings_shop db) (settings_by_subdomain db (leftmost_label host))
      else None)"

definition shop_id_source :: "site \<Rightarrow> request \<Rightarrow> shop option option" where
  "shop_id_source db req =
     (case arg_shop_id req of
        None \<Rightarrow> None
      | Some text \<Rightarrow>
          (case shop_query_get db text of
             None \<Rightarrow> None
           | Some s \<Rightarrow>
               if text \<noteq> []
                  \<and> (case shop_settings db s of Some hs \<Rightarrow> hs_is_active hs | None \<Rightarrow> False)
               then Some (Some s) else None))"

definition shop_slug_source :: "site \<Rightarrow> request \<Rightarrow> shop option option" where
  "shop_slug_source db req =
     (case arg_shop_slug req of
        None \<Rightarrow> None
      | Some slug \<Rightarrow> if slug = [] then None else map_option Some (shop_by_slug db slug))"

definition resolve_in_order :: "site \<Rightarrow> request \<Rightarrow> shop option" where
  "resolve_in_order db req =
     (case first_match [custom_domain_source db req, subdomain_source db req,
                        shop_id_source db req, shop_slug_source db req] of
        Some found \<Rightarrow> found
      | None \<Rightarrow> None)"

section \<open>The daily sales summary\<close>

text \<open>
  The names bound at module level in \<^verbatim>\<open>services.py\<close>: the names imported by lines 1-18
  and the names the module defines. A function body that reads any other name, not a
  builtin, raises \<^verbatim>\<open>NameError\<close> when the read is executed.
\<close>

definition services_globals :: "string list" where
  "services_globals =
     [''current_user'', ''datetime'', ''Decimal'', ''ROUND_UP'', ''List'', ''Dict'', ''Optional'',
      ''request'', ''session'', ''db'', ''socketio'', ''ProductRepository'',
      ''CategoryRepository'', ''SaleRepository'', ''Shop'', ''Sale'', ''CartItem'', ''Category'',
      ''Product'', ''Tax'', ''SaleStatus'', ''bindparam'', ''PricingUtil'', ''threading'',
      ''joinedload'', ''with_loader_criteria'', ''get_kenya_today_range'', ''and_'', ''func'',
      ''case'', ''logging'', ''traceback'', ''lru_cache'', ''logger'', ''run_checkout_tasks'',
      ''SalesService'', ''ReceiptService'', ''ProductService'', ''CategoryService'',
      ''PaymentService'', ''TaxService'']"

definition load_global :: "string list \<Rightarrow> string \<Rightarrow> py_exception + unit" where
  "load_global globals name = (if name \<in> set globals then Inr () else Inl (NameError name))"

text \<open>
  A sale as the summary reads it: the time of sale in seconds, the total and the paid flag.
  \<^verbatim>\<open>func.date\<close> is the day of the time of sale.
\<close>

record sale_entry =
  se_shop_id :: int
  se_date :: int
  se_total :: rat
  se_is_paid :: bool

definition day_of :: "int \<Rightarrow> int" where
  "day_of seconds = seconds div 86400"

record day_row =
  dr_day :: int
  dr_count :: nat
  dr_total :: rat

record mode_row =
  mr_is_paid :: bool
  mr_count :: nat
  mr_total :: rat

record sales_summary =
  daily_summary :: "day_row list"
  pay_now_total :: rat
  pay_now_count :: nat
  pay_later_total :: rat
  pay_later_count :: nat

text \<open>The two grouped queries of lines 356-380 over the sales of the window.\<close>

definition daily_rows :: "sale_entry list \<Rightarrow> day_row list" where
  "daily_rows window =
     map (\<lambda>d. \<lparr>dr_day = d,
                dr_count = length (filter (\<lambda>s. day_of (se_date s) = d) window),
                dr_total = sum_list (map se_total (filter (\<lambda>s. day_of (se_date s) = d) window))\<rparr>)
       (rev (sort (remdups (map (\<lambda>s. day_of (se_date s)) window))))"

definition mode_rows :: "sale_entry list \<Rightarrow> mode_row list" where
  "mode_rows window =
     map (\<lambda>b. \<lparr>mr_is_paid = b,
                mr_count = length (filter (\<lambda>s. se_is_paid s = b) window),
                mr_total = sum_list (map se_total (filter (\<lambda>s. se_is_paid s = b) window))\<rparr>)
       (remdups (map se_is_paid window))"

text \<open>Lines 382-388: the last row of each kind sets the total.\<close>

fun breakdown_totals :: "mode_row list \<Rightarrow> rat \<times> rat \<Rightarrow> rat \<times> rat" where
  "breakdown_totals [] totals = totals"
| "breakdown_totals (b # bs) (now_total, later_total) =
     breakdown_totals bs
       (if mr_is_paid b then (mr_total b, later_total) else (now_total, mr_total b))"

text \<open>
  \<^verbatim>\<open>SalesService.get_daily_sales_summary\<close> (lines 350-406). The first statement reads
  the globals \<^verbatim>\<open>datetime\<close> and \<^verbatim>\<open>timedelta\<close>, in this order; \<open>now\<close> is the value
  of \<^verbatim>\<open>datetime.utcnow()\<close> in seconds.
\<close>

definition get_daily_sales_summary ::
  "string list \<Rightarrow> int \<Rightarrow> sale_entry list \<Rightarrow> int \<Rightarrow> int \<Rightarrow> py_exception + sales_summary" where
  "get_daily_sales_summary globals now sale_entries shop days =
     (case load_global globals ''datetime'' of
        Inl e \<Rightarrow> Inl e
      | Inr _ \<Rightarrow>
     (case load_global globals ''timedelta'' of
        Inl e \<Rightarrow> Inl e
      | Inr _ \<Rightarrow>
          (let date_threshold = now - days * 86400;
               window = filter (\<lambda>s. se_shop_id s = shop \<and> date_threshold \<le> se_date s)
                          sale_entries;
               result = daily_rows window;
               mode_breakdown = mode_rows window;
               (now_total, later_total) = breakdown_totals mode_breakdown (0, 0)
           in Inr \<lparr>daily_summary = result,
                   pay_now_total = now_total,
                   pay_now_count = sum_list (map mr_count (filter mr_is_paid mode_breakdown)),
                   pay_later_total = later_total,
                   pay_later_count =
                     sum_list (map mr_count (filter (\<lambda>b. \<not> mr_is_paid b) mode_breakdown))\<rparr>)))"

section \<open>The cached tax-rate lookup\<close>

record tax =
  tax_shop_id :: int
  tax_rate :: rat
  tax_is_active :: bool
  tax_is_deleted :: bool

text \<open>
  The body of \<^verbatim>\<open>TaxService.get_tax_rate\<close> (lines 615-616): the rate of the shop's
  first active tax that is not deleted, and 0.0 when there is none.
\<close>

definition query_tax_rate :: "tax list \<Rightarrow> int \<Rightarrow> rat" where
  "query_tax_rate taxes shop =
     (case find (\<lambda>t. tax_shop_id t = shop \<and> tax_is_active t \<and> \<not> tax_is_deleted t) taxes of
        Some t \<Rightarrow> tax_rate t
      | None \<Rightarrow> 0)"

text \<open>
  Modelled from the spec: \<^verbatim>\<open>functools.lru_cache\<close> belongs to the Python standard
  library and is not under src/. The rate "is cached per shop id (bounded cache, capacity
  32 distinct shop ids, evicting least-recently-used entries beyond that)". The cache is
  the list of its entries, the most recently used first: a hit returns the stored value
  and moves the entry to the front; a miss calls the function, stores the result in front
  and, when the cache is full, drops the entry at the back.
\<close>

definition lru_cache_call ::
  "nat \<Rightarrow> ('k \<Rightarrow> 'v) \<Rightarrow> ('k \<times> 'v) list \<Rightarrow> 'k \<Rightarrow> 'v \<times> ('k \<times> 'v) list" where
  "lru_cache_call maxsize f cache key =
     (if maxsize = 0 then (f key, cache)
      else case map_of cache key of
        Some v \<Rightarrow> (v, (key, v) # filter (\<lambda>e. fst e \<noteq> key) cache)
      | None \<Rightarrow>
          (let v = f key
           in (v, (key, v) # (if maxsize \<le> length cache then butlast cache else cache))))"

text \<open>
  \<^verbatim>\<open>TaxService.get_tax_rate\<close> as decorated (line 613): the lookup through the cache,
  against the tax table as it is at the time of the call.
\<close>

definition get_tax_rate :: "tax list \<Rightarrow> (int \<times> rat) list \<Rightarrow> int \<Rightarrow> rat \<times> (int \<times> rat) list" where
  "get_tax_rate taxes cache shop = lru_cache_call 32 (query_tax_rate taxes) cache shop"

text \<open>
  The cache after a history of lookups, each made of the tax table of the moment and the
  shop id asked for, starting from the empty cache of a fresh process.
\<close>

definition cache_after :: "(tax list \<times> int) list \<Rightarrow> (int \<times> rat) list" where
  "cache_after history =
     foldl (\<lambda>cache (taxes, shop). snd (get_tax_rate taxes cache shop)) [] history"

text \<open>The distinct shop ids of a history, the most recently looked up first.\<close>

definition by_recency :: "(tax list \<times> int) list \<Rightarrow> int list" where
  "by_recency history = rev (remdups (map snd history))"

section \<open>Example data\<close>

definition demo_tables :: tables where
  "demo_tables =
     \<lparr>product_rows = [\<lparr>product_id = 1, product_shop_id = 1, product_name = ''tea'',
                       product_stock = 5, product_cost_price = 2\<rparr>],
      sale_rows = [], cart_item_rows = []\<rparr>"

definition demo_session :: db_session where
  "demo_session = \<lparr>committed = demo_tables, working = demo_tables\<rparr>"

definition no_fault :: "db_op \<Rightarrow> bool" where
  "no_fault op = False"

definition demo_rate :: "int \<Rightarrow> rat" where
  "demo_rate shop = 4 / 25"

definition raw_line :: "int \<Rightarrow> rat \<Rightarrow> rat \<Rightarrow> raw_item" where
  "raw_line pid q price = \<lparr>raw_product_id = Some pid, raw_quantity = Some q, raw_price = Some price\<rparr>"

definition line :: "int \<Rightarrow> rat \<Rightarrow> rat \<Rightarrow> item" where
  "line pid q price = \<lparr>item_product_id = pid, item_quantity = q, item_price = price\<rparr>"

definition demo_customer :: customer where
  "demo_customer = \<lparr>cust_name = Some ''Ann'', cust_phone = None, cust_notes = None\<rparr>"

definition demo_site :: site where
  "demo_site =
     \<lparr>shop_rows = [\<lparr>shop_id = 1, shop_slug = ''shop1'', shop_is_active = True\<rparr>,
                   \<lparr>shop_id = 2, shop_slug = ''shop2'', shop_is_active = True\<rparr>],
      settings_rows = [\<lparr>hs_shop_id = 1, hs_subdomain = None,
                        hs_custom_domain = Some ''tea.example'', hs_is_active = True\<rparr>,
                       \<lparr>hs_shop_id = 2, hs_subdomain = Some ''two'',
                        hs_custom_domain = None, hs_is_active = True\<rparr>],
      key_of_text = (\<lambda>text. if text = ''1'' then Some 1 else if text = ''2'' then Some 2 else None)\<rparr>"


section \<open>Decimal arithmetic: the context precision\<close>

declare digits.simps [simp del]

lemma digits_pos: "0 < digits n"
  by (simp add: digits.simps [of n])

lemma digits_bounds:
  "0 < n \<Longrightarrow> 10 ^ (digits n - 1) \<le> n \<and> n < 10 ^ digits n"
proof (induction n rule: digits.induct)
  case (1 n)
  show ?case
  proof (cases "n < 10")
    case True
    with "1.prems" show ?thesis by (simp add: digits.simps [of n])
  next
    case False
    then have pos: "0 < n div 10" by simp
    from "1.IH" [OF False pos]
    have lo: "10 ^ (digits (n div 10) - 1) \<le> n div 10" and hi: "n div 10 < 10 ^ digits (n div 10)"
      by simp_all
    have d: "digits n = Suc (digits (n div 10))" using False by (simp add: digits.simps [of n])
    have "10 * 10 ^ (digits (n div 10) - 1) \<le> 10 * (n div 10)" using lo by simp
    also have "\<dots> \<le> n" by simp
    finally have "10 * 10 ^ (digits (n div 10) - 1) \<le> n" .
    moreover have "(10::nat) ^ digits (n div 10) = 10 * 10 ^ (digits (n div 10) - 1)"
      using digits_pos [of "n div 10"] by (cases "digits (n div 10)") simp_all
    ultimately have "10 ^ (digits n - 1) \<le> n" unfolding d by simp
    moreover have "n < 10 * 10 ^ digits (n div 10)" using hi by simp
    ultimately show ?thesis unfolding d by simp
  qed
qed

lemma adjusted_bounds:
  assumes "x \<noteq> 0"
  shows "10 powi adjusted x \<le> \<bar>x\<bar> \<and> \<bar>x\<bar> < 10 powi (adjusted x + 1)"
proof -
  obtain a b where q: "quotient_of \<bar>x\<bar> = (a, b)" by (cases "quotient_of \<bar>x\<bar>")
  then have b: "0 < b" by (rule quotient_of_denom_pos)
  from q have x: "\<bar>x\<bar> = of_int a / of_int b" by (rule quotient_of_div)
  from assms have "0 < \<bar>x\<bar>" by simp
  with x b have a: "0 < a" by (simp add: zero_less_divide_iff)
  define da where "da = digits (nat a)"
  define db where "db = digits (nat b)"
  define d where "d = int da - int db"
  from digits_bounds [of "nat a"] a
  have a_lo: "(10::rat) ^ (da - 1) \<le> of_int a" and a_hi: "(of_int a :: rat) < 10 ^ da"
    unfolding da_def
    by (metis (mono_tags) of_int_of_nat_eq of_nat_le_iff of_nat_numeral of_nat_power
          int_nat_eq less_imp_le zero_less_nat_eq of_int_le_iff,
        metis (mono_tags) of_int_of_nat_eq of_nat_less_iff of_nat_numeral of_nat_power
          int_nat_eq less_imp_le zero_less_nat_eq of_int_less_iff)
  from digits_bounds [of "nat b"] b
  have b_lo: "(10::rat) ^ (db - 1) \<le> of_int b" and b_hi: "(of_int b :: rat) < 10 ^ db"
    unfolding db_def
    by (metis (mono_tags) of_int_of_nat_eq of_nat_le_iff of_nat_numeral of_nat_power
          int_nat_eq less_imp_le zero_less_nat_eq of_int_le_iff,
        metis (mono_tags) of_int_of_nat_eq of_nat_less_iff of_nat_numeral of_nat_power
          int_nat_eq less_imp_le zero_less_nat_eq of_int_less_iff)
  have adj: "adjusted x = (if 10 powi d \<le> \<bar>x\<bar> then d else d - 1)"
    by (simp add: adjusted_def q Let_def d_def da_def db_def)
  have bpos: "(0::rat) < of_int b" using b by simp
  have da1: "0 < da" "0 < db" unfolding da_def db_def by (rule digits_pos)+
  \<comment> \<open>upper bound: x < 10 powi (d + 1)\<close>
  have "\<bar>x\<bar> * 10 ^ (db - 1) \<le> \<bar>x\<bar> * of_int b"
    using b_lo by (intro mult_left_mono) simp_all
  also have "\<dots> = of_int a" using x bpos by simp
  also have "\<dots> < 10 ^ da" by (rule a_hi)
  finally have "\<bar>x\<bar> < 10 ^ da / 10 ^ (db - 1)"
    by (simp add: pos_less_divide_eq)
  also have "(10::rat) ^ da / 10 ^ (db - 1) = 10 powi (d + 1)"
  proof -
    have "d + 1 = int da - int (db - 1)" using da1 by (simp add: d_def)
    then show ?thesis by (simp add: power_int_diff)
  qed
  finally have upper: "\<bar>x\<bar> < 10 powi (d + 1)" .
  \<comment> \<open>lower bound: 10 powi (d - 1) \<le> x\<close>
  have "(10::rat) ^ (da - 1) \<le> of_int a" by (rule a_lo)
  also have "\<dots> = \<bar>x\<bar> * of_int b" using x bpos by simp
  also have "\<dots> \<le> \<bar>x\<bar> * 10 ^ db"
    using b_hi by (intro mult_left_mono) simp_all
  finally have "10 ^ (da - 1) / 10 ^ db \<le> \<bar>x\<bar>"
    by (simp add: pos_divide_le_eq)
  moreover have "(10::rat) ^ (da - 1) / 10 ^ db = 10 powi (d - 1)"
  proof -
    have "d - 1 = int (da - 1) - int db" using da1 by (simp add: d_def)
    then show ?thesis by (simp add: power_int_diff)
  qed
  ultimately have lower: "10 powi (d - 1) \<le> \<bar>x\<bar>" by simp
  show ?thesis
  proof (cases "10 powi d \<le> \<bar>x\<bar>")
    case True
    with adj upper show ?thesis by simp
  next
    case False
    with adj lower show ?thesis by simp
  qed
qed

lemma pow10_less_imp_less:
  assumes "(10::rat) powi m < 10 powi n"
  shows "m < n"
proof (rule ccontr)
  assume "\<not> m < n"
  then have "n \<le> m" by simp
  then have "(10::rat) powi n \<le> 10 powi m" by (rule power_int_increasing) simp
  with assms show False by simp
qed

lemma adjusted_eqI:
  assumes "10 powi k \<le> \<bar>x\<bar>" "\<bar>x\<bar> < 10 powi (k + 1)"
  shows "adjusted x = k"
proof -
  have "(0::rat) < 10 powi k" by simp
  with assms(1) have "0 < \<bar>x\<bar>" by linarith
  then have "x \<noteq> 0" by simp
  from adjusted_bounds [OF this]
  have lo: "10 powi adjusted x \<le> \<bar>x\<bar>" and hi: "\<bar>x\<bar> < 10 powi (adjusted x + 1)" by simp_all
  from assms(1) hi have "(10::rat) powi k < 10 powi (adjusted x + 1)" by simp
  then have "k < adjusted x + 1" by (rule pow10_less_imp_less)
  moreover from lo assms(2) have "(10::rat) powi adjusted x < 10 powi (k + 1)" by simp
  then have "adjusted x < k + 1" by (rule pow10_less_imp_less)
  ultimately show ?thesis by simp
qed

lemma round_half_even_of_int [simp]: "round_half_even (of_int m) = m"
  by (simp add: round_half_even_def)

lemma ctx_round_eqI:
  assumes "10 powi k \<le> \<bar>x\<bar>" "\<bar>x\<bar> < 10 powi (k + 1)"
  shows "ctx_round x = of_int (round_half_even (x / 10 powi (k - 27))) * 10 powi (k - 27)"
proof -
  have "(0::rat) < 10 powi k" by simp
  with assms(1) have "0 < \<bar>x\<bar>" by linarith
  then have "x \<noteq> 0" by simp
  then show ?thesis by (simp add: ctx_round_def Let_def adjusted_eqI [OF assms])
qed

lemma ctx_round_exact:
  assumes "\<bar>c\<bar> < 10 ^ 28"
  shows "ctx_round (of_int c * 10 powi e) = of_int c * 10 powi e"
proof (cases "c = 0")
  case True
  then show ?thesis by (simp add: ctx_round_def)
next
  case False
  define x :: rat where "x = of_int c * 10 powi e"
  from False have x0: "x \<noteq> 0" by (simp add: x_def)
  define k where "k = adjusted x - 27"
  from adjusted_bounds [OF x0] have lo: "10 powi (k + 27) \<le> \<bar>x\<bar>" by (simp add: k_def)
  have ek: "k \<le> e"
  proof (rule ccontr)
    assume "\<not> k \<le> e"
    then have "28 + e \<le> k + 27" by simp
    then have le: "(10::rat) powi (28 + e) \<le> 10 powi (k + 27)"
      by (rule power_int_increasing) simp
    have "\<bar>x\<bar> = of_int \<bar>c\<bar> * 10 powi e" by (simp add: x_def abs_mult)
    also have "\<dots> < 10 ^ 28 * 10 powi e"
    proof (rule mult_strict_right_mono)
      from assms have "(of_int \<bar>c\<bar> :: rat) < of_int (10 ^ 28)" by (simp only: of_int_less_iff)
      then show "(of_int \<bar>c\<bar> :: rat) < 10 ^ 28" by simp
    qed simp
    also have "\<dots> = 10 powi (28 + e)" by (simp add: power_int_add)
    finally have "\<bar>x\<bar> < 10 powi (k + 27)" using le by simp
    with lo show False by simp
  qed
  define n where "n = nat (e - k)"
  have e: "e = k + int n" using ek by (simp add: n_def)
  have "x / 10 powi k = of_int c * 10 ^ n"
    unfolding x_def e by (simp add: power_int_add)
  also have "\<dots> = of_int (c * 10 ^ n)" by simp
  finally have "round_half_even (x / 10 powi k) = c * 10 ^ n"
    by (simp only: round_half_even_of_int)
  then have "ctx_round x = of_int (c * 10 ^ n) * 10 powi k"
    using x0 by (simp add: ctx_round_def Let_def k_def)
  also have "\<dots> = x" unfolding x_def e by (simp add: power_int_add)
  finally show ?thesis unfolding x_def .
qed

lemma ctx_round_of_int: "\<bar>c\<bar> < 10 ^ 28 \<Longrightarrow> ctx_round (of_int c) = of_int c"
  using ctx_round_exact [of c 0] by simp

lemma ctx_round_scaled:
  assumes "\<bar>c\<bar> < 10 ^ 28"
  shows "ctx_round (of_int c / 10 ^ n) = of_int c / 10 ^ n"
proof -
  have "of_int c / 10 ^ n = (of_int c :: rat) * 10 powi (- int n)"
    by (simp add: power_int_minus field_simps)
  with ctx_round_exact [OF assms, of "- int n"] show ?thesis by simp
qed

lemma floor_rat_numeral:
  "\<lfloor>numeral a / numeral b :: rat\<rfloor> = numeral a div numeral b"
  using floor_divide_of_int_eq [of "numeral a" "numeral b", where ?'a = rat] by simp

lemma ctx_round_down:
  assumes "10 ^ 27 \<le> \<bar>x\<bar> * 10 ^ n" "\<bar>x\<bar> * 10 ^ n < 10 ^ 28"
  shows "ctx_round x = of_int (round_half_even (x * 10 ^ n)) / 10 ^ n"
proof -
  have p: "(10::rat) powi (27 - int n) = 10 ^ 27 / 10 ^ n"
    by (simp add: power_int_diff)
  have q: "(10::rat) powi (27 - int n + 1) = 10 ^ 28 / 10 ^ n"
    using power_int_diff [of "10::rat" 28 "int n"] by simp
  have "10 powi (27 - int n) \<le> \<bar>x\<bar>" unfolding p using assms(1) by (simp add: pos_divide_le_eq)
  moreover have "\<bar>x\<bar> < 10 powi (27 - int n + 1)"
    unfolding q using assms(2) by (simp add: pos_less_divide_eq)
  ultimately have "ctx_round x =
      of_int (round_half_even (x / 10 powi (27 - int n - 27))) * 10 powi (27 - int n - 27)"
    by (rule ctx_round_eqI)
  then show ?thesis by (simp add: power_int_minus field_simps)
qed

text \<open>
  For evaluation: a value with at most six decimal places and fewer than 23 integer
  digits fits in 28 digits and is returned as it is, without the scaling by a power of
  ten.
\<close>

lemma ctx_round_code [code]:
  "ctx_round x =
     (if x * 1000000 = of_int \<lfloor>x * 1000000\<rfloor> \<and> \<bar>x\<bar> < 10000000000000000000000 then x
      else if x = 0 then 0
      else let e = adjusted x - 27
           in of_int (round_half_even (x / 10 powi e)) * 10 powi e)"
proof (cases "x * 1000000 = of_int \<lfloor>x * 1000000\<rfloor> \<and> \<bar>x\<bar> < 10000000000000000000000")
  case True
  define c where "c = \<lfloor>x * 1000000\<rfloor>"
  from True have x: "x = of_int c / 10 ^ 6" by (simp add: c_def)
  from True have "\<bar>x * 1000000\<bar> < 10 ^ 28" by (simp add: abs_mult)
  with True have "\<bar>(of_int c :: rat)\<bar> < of_int (10 ^ 28)" by (simp add: c_def)
  then have "\<bar>c\<bar> < 10 ^ 28" by (simp only: of_int_abs [symmetric] of_int_less_iff)
  from ctx_round_scaled [OF this, of 6] have "ctx_round x = x" by (simp only: x [symmetric])
  with True show ?thesis by simp
next
  case False
  show ?thesis by (subst if_not_P [OF False]) (simp add: ctx_round_def)
qed

section \<open>The rounding law\<close>

text \<open>
  C6, as stated, fails at the precision of the context: the line of quantity
  100.000020000002 at price 499.99990000001 has the 28-digit amount
  50000.00000000000000000000002, whose fifth needs 29 digits and is rounded to 10000
  before it is rounded up, so the function returns 50000, less than the amount.
\<close>

theorem round_up_to_nearest_five_below_amount:
  "dec_mul (100000020000002 / 10 ^ 12) (49999990000001 / 10 ^ 11) = 50000 + 2 / 10 ^ 23
   \<and> (0::rat) < 50000 + 2 / 10 ^ 23
   \<and> round_up_to_nearest_five (50000 + 2 / 10 ^ 23) = 50000
   \<and> round_up_to_nearest_five (50000 + 2 / 10 ^ 23) < 50000 + 2 / 10 ^ 23"
proof -
  have prod: "(100000020000002 / 10 ^ 12 :: rat) * (49999990000001 / 10 ^ 11)
              = of_int 5000000000000000000000000002 / 10 ^ 23" by simp
  have amount: "(50000 + 2 / 10 ^ 23 :: rat) = of_int 5000000000000000000000000002 / 10 ^ 23"
    by simp
  have m: "dec_mul (100000020000002 / 10 ^ 12) (49999990000001 / 10 ^ 11) = 50000 + 2 / 10 ^ 23"
    unfolding dec_mul_def prod amount by (rule ctx_round_scaled) simp
  have "dec_div (50000 + 2 / 10 ^ 23) 5
        = of_int (round_half_even ((50000 + 2 / 10 ^ 23) / 5 * 10 ^ 23)) / 10 ^ 23"
    unfolding dec_div_def by (rule ctx_round_down) simp_all
  also have "\<dots> = 10000"
    by (simp add: round_half_even_def Let_def floor_rat_numeral)
  finally have d: "dec_div (50000 + 2 / 10 ^ 23) 5 = 10000" .
  have "round_up_to_nearest_five (50000 + 2 / 10 ^ 23) = ctx_round (of_int 50000)"
    unfolding round_up_to_nearest_five_def d dec_mul_def by (simp add: to_integral_ROUND_UP_def)
  also have "\<dots> = 50000" by (subst ctx_round_of_int) simp_all
  finally have r: "round_up_to_nearest_five (50000 + 2 / 10 ^ 23) = 50000" .
  show ?thesis unfolding m r by simp
qed

text \<open>
  C6, amended. For every positive amount with a coefficient below \<open>5 * 10 ^ 27\<close>, that is,
  whose fifth fits in 28 digits (so for every amount of at most 27 significant digits),
  \<open>round_up_to_nearest_five\<close> returns a multiple of 5 that is at least the amount and
  less than the amount plus 5.
\<close>

theorem round_up_to_nearest_five_law:
  assumes pos: "0 < c" and fit: "c < 5 * 10 ^ 27" and amount: "amount = of_int c * 10 powi e"
  shows "(\<exists>k::int. round_up_to_nearest_five amount = 5 * of_int k)
         \<and> amount \<le> round_up_to_nearest_five amount
         \<and> round_up_to_nearest_five amount < amount + 5"
proof -
  define n where "n = \<lceil>amount / 5\<rceil>"
  from pos amount have apos: "0 < amount" by simp
  have fifth: "amount / 5 = of_int (2 * c) * 10 powi (e - 1)"
    unfolding amount by (simp add: power_int_diff)
  have "\<bar>2 * c\<bar> < 10 ^ 28" using pos fit by simp
  then have "ctx_round (of_int (2 * c) * 10 powi (e - 1)) = of_int (2 * c) * 10 powi (e - 1)"
    by (rule ctx_round_exact)
  then have div: "dec_div amount 5 = amount / 5"
    unfolding dec_div_def by (simp only: fifth)
  from apos have up: "to_integral_ROUND_UP (amount / 5) = of_int n"
    by (simp add: to_integral_ROUND_UP_def n_def)
  have npos: "0 < n" using apos by (simp add: n_def)
  have mul: "ctx_round (of_int n * 5) = of_int n * 5"
  proof (cases "e \<le> 0")
    case True
    then have "(10::rat) powi e \<le> 10 powi 0" by (intro power_int_increasing) simp_all
    then have "amount \<le> of_int c" unfolding amount using pos
      by (simp add: mult_left_le)
    also have "\<dots> < of_int (5 * 10 ^ 27)" using fit by (simp only: of_int_less_iff)
    finally have "amount / 5 \<le> of_int (10 ^ 27)" by simp
    then have "n \<le> 10 ^ 27" unfolding n_def by (simp only: ceiling_le_iff)
    with npos have "\<bar>n * 5\<bar> < 10 ^ 28" by simp
    from ctx_round_of_int [OF this] show ?thesis by simp
  next
    case False
    define m where "m = nat (e - 1)"
    from False have e: "e = int m + 1" by (simp add: m_def)
    have "amount / 5 = of_int (2 * c * 10 ^ m)"
      unfolding amount e by (simp add: power_int_add)
    then have "n = 2 * c * 10 ^ m" unfolding n_def by (simp only: ceiling_of_int)
    then have "(of_int n :: rat) * 5 = of_int c * 10 powi e"
      unfolding e by (simp add: power_int_add)
    moreover have "\<bar>c\<bar> < 10 ^ 28" using pos fit by simp
    ultimately show ?thesis using ctx_round_exact [of c e] by simp
  qed
  have eq: "round_up_to_nearest_five amount = 5 * of_int n"
    unfolding round_up_to_nearest_five_def div up dec_mul_def mul by simp
  have lo: "amount / 5 \<le> of_int n"
    unfolding n_def by (rule ceiling_correct [THEN conjunct2])
  have hi: "of_int n - 1 < amount / 5"
    unfolding n_def by (rule ceiling_correct [THEN conjunct1])
  from lo have "amount \<le> 5 * of_int n" by linarith
  moreover from hi have "5 * of_int n < amount + 5" by linarith
  ultimately show ?thesis using eq by auto
qed

theorem round_up_to_nearest_five_law_witness:
  "(\<exists>k::int. round_up_to_nearest_five (4001 / 100) = 5 * of_int k)
   \<and> 4001 / 100 \<le> round_up_to_nearest_five (4001 / 100)
   \<and> round_up_to_nearest_five (4001 / 100) < 4001 / 100 + 5"
proof -
  have "(4001 / 100 :: rat) = of_int 4001 * 10 powi (- 2)" by (simp add: power_int_minus)
  from round_up_to_nearest_five_law [OF _ _ this] show ?thesis by simp
qed

section \<open>Checkout: stock, atomicity, status and totals\<close>

subsection \<open>The loaded products, the loop and the batched update\<close>

lemma product_map_of_snoc:
  "product_map_of (ps @ [p]) = (product_map_of ps)(product_id p \<mapsto> p)"
  by (simp add: product_map_of_def)

lemma product_map_of_Some:
  "product_map_of ps k = Some p \<Longrightarrow> p \<in> set ps \<and> product_id p = k"
proof (induction ps arbitrary: p rule: rev_induct)
  case Nil
  then show ?case by (simp add: product_map_of_def)
next
  case (snoc x xs)
  then show ?case
    by (cases "product_id x = k") (auto simp: product_map_of_snoc)
qed

lemma find_unique_id:
  assumes "distinct (map product_id ps)" "q \<in> set ps" "product_id q = pid"
  shows "find (\<lambda>p. product_id p = pid) ps = Some q"
  using assms
proof (induction ps)
  case Nil
  then show ?case by simp
next
  case (Cons a ps)
  then show ?case by (cases "product_id a = pid") force+
qed

lemma find_id_Some:
  "find (\<lambda>p. product_id p = pid) ps = Some a \<Longrightarrow> product_id a = pid \<and> a \<in> set ps"
  by (induction ps) (auto split: if_splits)

lemma find_update_stock:
  "find (\<lambda>p. product_id p = pid)
     (map (\<lambda>p. if product_id p = k then p\<lparr>product_stock := v\<rparr> else p) ps) =
   map_option (\<lambda>p. if product_id p = k then p\<lparr>product_stock := v\<rparr> else p)
     (find (\<lambda>p. product_id p = pid) ps)"
  by (induction ps) auto

lemma stock_after_updates:
  "map_option product_stock (find (\<lambda>p. product_id p = pid) (apply_stock_updates us ps)) =
     (case filter (\<lambda>u. fst u = pid) us of
        [] \<Rightarrow> map_option product_stock (find (\<lambda>p. product_id p = pid) ps)
      | u # us' \<Rightarrow> map_option (\<lambda>_. snd (last (u # us'))) (find (\<lambda>p. product_id p = pid) ps))"
proof (induction us arbitrary: ps)
  case Nil
  then show ?case by simp
next
  case (Cons u us)
  obtain k v where u: "u = (k, v)" by (cases u)
  show ?case
    unfolding u apply_stock_updates.simps Cons.IH find_update_stock
    by (cases "find (\<lambda>p. product_id p = pid) ps")
       (auto split: list.splits simp: option.map_comp comp_def dest: find_id_Some)
qed

lemma process_lines_pay_now:
  assumes "process_lines ''pay_now'' shop pm cart acc = Inr acc'"
  shows "stock_updates acc' = stock_updates acc @
           map (\<lambda>it. (product_id (the (pm (item_product_id it))),
                      product_stock (the (pm (item_product_id it))) - item_quantity it)) cart
         \<and> (\<forall>it \<in> set cart. \<exists>p. pm (item_product_id it) = Some p
                \<and> item_quantity it \<le> product_stock p)"
  using assms
proof (induction cart arbitrary: acc)
  case Nil
  then show ?case by simp
next
  case (Cons it cart)
  from Cons.prems obtain p where p: "pm (item_product_id it) = Some p"
    by (auto split: option.splits)
  from Cons.prems p have ok: "item_quantity it \<le> product_stock p"
    by (auto simp: Let_def split: if_splits)
  from Cons.prems p ok obtain acc1 where
    rec: "process_lines ''pay_now'' shop pm cart acc1 = Inr acc'"
    and upd: "stock_updates acc1 = stock_updates acc @ [(product_id p, product_stock p - item_quantity it)]"
    by (auto simp: Let_def split: if_splits)
  from Cons.IH [OF rec] upd p ok show ?case by simp
qed


lemma checkout_transaction_Inr:
  assumes "checkout_transaction fails tax s shop user cart mode method cust = (Inr r, s')"
  shows "\<exists>acc. process_lines mode shop
            (product_map_of (get_bulk_for_sale (working s) (map item_product_id cart) shop))
            cart empty_acc = Inr acc
         \<and> res_status r = (if mode = ''pay_now'' then COMPLETED else PENDING)
         \<and> res_is_paid r = (mode = ''pay_now'')
         \<and> res_sale_id r = fresh_sale_id (working s)
         \<and> (\<exists>t. sale_totals (subtotal acc) (total_cost acc) (tax shop) = Inr t
                \<and> res_amount_paid r = (if mode = ''pay_now'' then total t else 0))
         \<and> working s' = committed s'
         \<and> product_rows (committed s') =
             apply_stock_updates (stock_updates acc) (product_rows (working s))
         \<and> map ci_total_price (cart_item_rows (committed s')) =
             map ci_total_price (cart_item_rows (working s)) @
             map ld_total_price (cart_item_data acc)
         \<and> sale_rows (committed s') = sale_rows (working s) @
             [\<lparr>sale_id = fresh_sale_id (working s), sale_shop_id = shop, sale_user_id = user,
               sale_payment_mode = mode, sale_payment_method = method,
               sale_customer_name = customer_field cust cust_name,
               sale_customer_phone = customer_field cust cust_phone,
               sale_notes = customer_field cust cust_notes\<rparr>]"
  using assms
  unfolding checkout_transaction_def Let_def create_sale_def commit_def
  by (auto simp: comp_def split: if_splits sum.splits)

lemma checkout_transaction_Inl:
  assumes "checkout_transaction fails tax s shop user cart mode method cust = (Inl e, s')"
  shows "committed s' = committed s"
  using assms
  unfolding checkout_transaction_def Let_def create_sale_def commit_def
  by (auto split: if_splits sum.splits)

lemma process_checkout_Inr:
  assumes "process_checkout fails tax s shop user raw mode method cust = (Inr r, s')"
  shows "\<exists>cart method'. raw \<noteq> [] \<and> check_payment mode method cust = Inr method'
           \<and> normalize_cart raw = Inr cart
           \<and> checkout_transaction fails tax s shop user cart mode method' cust = (Inr r, s')"
  using assms unfolding process_checkout_def
  by (auto split: if_splits sum.splits prod.splits)




subsection \<open>Stock\<close>

text \<open>
  C1. The stock invariant does not hold for a cart that repeats a product: with 5 in
  stock, a \<^verbatim>\<open>pay_now\<close> cart of 3 and 4 of the same product is accepted, paid, and
  leaves a stock of 1, neither the stock less the 7 sold nor a rejection. The loop that
  completes a deferred sale refuses the same two lines.
\<close>

theorem repeated_product_undercounts_stock:
  "stock_of (committed demo_session) 1 = Some 5
   \<and> (case process_checkout no_fault demo_rate demo_session 1 7
             [raw_line 1 3 10, raw_line 1 4 10] ''pay_now'' (Some ''cash'') None of
        (Inr r, s') \<Rightarrow>
          res_success r \<and> res_is_paid r \<and> stock_of (committed s') 1 = Some 1
          \<and> map ci_quantity (cart_item_rows (committed s')) = [3, 4]
          \<and> decrement_stock_for_lines (cart_item_rows (committed s'))
                (product_rows (committed demo_session)) = Inl (InsufficientStock ''tea'')
      | (Inl e, s') \<Rightarrow> False)"
  by code_simp

text \<open>
  C10. A committed \<^verbatim>\<open>pay_now\<close> checkout whose cart names product \<open>pid\<close> on the
  lines \<open>lines\<close>: every such line passed its stock check against the stock the product
  had before the checkout, on its own quantity; the updates staged for \<open>pid\<close> are, line
  by line, that stock minus the line's quantity; and the committed stock is that stock
  minus the quantity of the last of these lines, which is not the stock minus the sum of
  the lines unless the two happen to coincide.
\<close>

theorem duplicate_lines_last_update_wins:
  assumes run: "process_checkout fails tax s shop user raw ''pay_now'' method cust = (Inr r, s')"
      and norm: "normalize_cart raw = Inr cart"
      and keys: "distinct (map product_id (product_rows (working s)))"
      and pre: "find (\<lambda>q. product_id q = pid) (product_rows (working s)) = Some p"
      and lines: "lines = filter (\<lambda>it. item_product_id it = pid) cart"
      and some: "lines \<noteq> []"
  shows "(\<forall>it \<in> set lines. item_quantity it \<le> product_stock p)
       \<and> (\<exists>acc. process_lines ''pay_now'' shop
              (product_map_of (get_bulk_for_sale (working s) (map item_product_id cart) shop))
              cart empty_acc = Inr acc
            \<and> filter (\<lambda>u. fst u = pid) (stock_updates acc) =
                map (\<lambda>it. (pid, product_stock p - item_quantity it)) lines)
       \<and> stock_of (committed s') pid = Some (product_stock p - item_quantity (last lines))
       \<and> (sum_list (map item_quantity lines) \<noteq> item_quantity (last lines) \<longrightarrow>
            stock_of (committed s') pid \<noteq> Some (product_stock p - sum_list (map item_quantity lines)))"
proof -
  define pm where
    "pm = product_map_of (get_bulk_for_sale (working s) (map item_product_id cart) shop)"
  from process_checkout_Inr [OF run] norm obtain method' where
    tx: "checkout_transaction fails tax s shop user cart ''pay_now'' method' cust = (Inr r, s')"
    by auto
  from checkout_transaction_Inr [OF tx] obtain acc where
    loop: "process_lines ''pay_now'' shop pm cart empty_acc = Inr acc"
    and rows: "product_rows (committed s') =
                 apply_stock_updates (stock_updates acc) (product_rows (working s))"
    unfolding pm_def by auto
  from process_lines_pay_now [OF loop] have
    ups: "stock_updates acc =
            map (\<lambda>it. (product_id (the (pm (item_product_id it))),
                       product_stock (the (pm (item_product_id it))) - item_quantity it)) cart"
    and each: "\<forall>it \<in> set cart. \<exists>q. pm (item_product_id it) = Some q
                 \<and> item_quantity it \<le> product_stock q"
    by (simp_all add: empty_acc_def)
  have key: "product_id q = k" if "pm k = Some q" for k q
    using product_map_of_Some that unfolding pm_def by blast
  have same: "q = p" if "pm pid = Some q" for q
  proof -
    from that have "q \<in> set (get_bulk_for_sale (working s) (map item_product_id cart) shop)"
      and "product_id q = pid"
      unfolding pm_def by (blast dest: product_map_of_Some)+
    then have "q \<in> set (product_rows (working s))" "product_id q = pid"
      by (simp_all add: get_bulk_for_sale_def)
    from find_unique_id [OF keys this] pre show ?thesis by simp
  qed
  have line: "pm (item_product_id it) = Some p \<and> item_quantity it \<le> product_stock p"
    if "it \<in> set lines" for it
  proof -
    from that lines have "it \<in> set cart" "item_product_id it = pid" by auto
    with each obtain q where "pm pid = Some q" "item_quantity it \<le> product_stock q" by auto
    with same \<open>item_product_id it = pid\<close> show ?thesis by auto
  qed
  have fst_upd: "fst (product_id (the (pm (item_product_id it))),
                      product_stock (the (pm (item_product_id it))) - item_quantity it)
                 = item_product_id it" if "it \<in> set cart" for it
    using each that key by fastforce
  have "filter (\<lambda>u. fst u = pid) (stock_updates acc) =
        map (\<lambda>it. (product_id (the (pm (item_product_id it))),
                   product_stock (the (pm (item_product_id it))) - item_quantity it))
          (filter (\<lambda>it. item_product_id it = pid) cart)"
    unfolding ups filter_map comp_def
    by (rule arg_cong [where f = "map _"], rule filter_cong) (simp_all add: fst_upd del: fst_conv)
  also have "\<dots> = map (\<lambda>it. (pid, product_stock p - item_quantity it)) lines"
    unfolding lines [symmetric]
    by (rule map_cong) (use line find_id_Some [OF pre] in auto)
  finally have staged: "filter (\<lambda>u. fst u = pid) (stock_updates acc) =
                          map (\<lambda>it. (pid, product_stock p - item_quantity it)) lines" .
  have final: "stock_of (committed s') pid = Some (product_stock p - item_quantity (last lines))"
    unfolding stock_of_def rows stock_after_updates staged
    using some pre by (cases lines) (simp_all add: last_map)
  show ?thesis
    using line loop staged final unfolding pm_def by auto
qed

theorem duplicate_lines_last_update_wins_witness:
  "(let (res, s') = process_checkout no_fault demo_rate demo_session 1 7
           [raw_line 1 3 10, raw_line 1 4 10] ''pay_now'' (Some ''cash'') None
    in stock_of (committed s') 1 = Some (5 - 4) \<and> stock_of (committed s') 1 \<noteq> Some (5 - (3 + 4)))"
proof -
  define out where "out = process_checkout no_fault demo_rate demo_session 1 7
           [raw_line 1 3 10, raw_line 1 4 10] ''pay_now'' (Some ''cash'') None"
  define cart where "cart = [line 1 3 10, line 1 4 10]"
  define p where "p = \<lparr>product_id = 1, product_shop_id = 1, product_name = ''tea'',
                       product_stock = 5, product_cost_price = 2\<rparr>"
  have "case fst out of Inr _ \<Rightarrow> True | Inl _ \<Rightarrow> False" unfolding out_def by code_simp
  then have run: "process_checkout no_fault demo_rate demo_session 1 7
           [raw_line 1 3 10, raw_line 1 4 10] ''pay_now'' (Some ''cash'') None = (Inr (projr (fst out)), snd out)"
    unfolding out_def [symmetric] by (cases out) (auto split: sum.splits)
  have norm: "normalize_cart [raw_line 1 3 10, raw_line 1 4 10] = Inr cart"
    unfolding cart_def by code_simp
  have keys: "distinct (map product_id (product_rows (working demo_session)))" by code_simp
  have pre: "find (\<lambda>q. product_id q = 1) (product_rows (working demo_session)) = Some p"
    unfolding p_def by code_simp
  have lines: "cart = filter (\<lambda>it. item_product_id it = 1) cart"
    unfolding cart_def by code_simp
  have some: "cart \<noteq> []" unfolding cart_def by simp
  have vals: "product_stock p = 5" "item_quantity (last cart) = 4" "sum_list (map item_quantity cart) = 3 + 4"
    unfolding p_def cart_def by (simp_all add: line_def)
  from duplicate_lines_last_update_wins [OF run norm keys pre lines some] show ?thesis
    unfolding out_def [symmetric] vals by (simp add: case_prod_unfold)
qed

subsection \<open>Atomicity\<close>

text \<open>
  C2. A checkout that fails raises \<^verbatim>\<open>ValueError\<close> and the committed rows are the ones
  from before: no sale, no line and no stock change. A failure inside the transaction,
  whatever had been staged by then, leaves the session rolled back; a failure before it
  leaves the session untouched.
\<close>

theorem failed_checkout_changes_nothing:
  assumes "process_checkout fails tax s shop user raw mode method cust = (Inl e, s')"
  shows "(\<exists>m. e = ValueError m)
       \<and> committed s' = committed s
       \<and> ((\<exists>f. e = ValueError (CheckoutProcessingFailed f)) \<longrightarrow> s' = rollback s)
       \<and> ((\<nexists>f. e = ValueError (CheckoutProcessingFailed f)) \<longrightarrow> s' = s)
       \<and> (working s = committed s \<longrightarrow> working s' = committed s)"
proof (cases "raw = []")
  case True
  with assms show ?thesis by (auto simp: process_checkout_def)
next
  case False
  note nonempty = this
  show ?thesis
  proof (cases "check_payment mode method cust")
    case (Inl x)
    with assms nonempty have "e = x" "s' = s" by (auto simp: process_checkout_def)
    moreover from Inl have "\<exists>m. x = ValueError m \<and> (\<forall>f. m \<noteq> CheckoutProcessingFailed f)"
      by (auto simp: check_payment_def split: if_splits)
    ultimately show ?thesis by auto
  next
    case (Inr method')
    show ?thesis
    proof (cases "normalize_cart raw")
      case (Inl x)
      have "\<exists>m. x = ValueError m \<and> (\<forall>f. m \<noteq> CheckoutProcessingFailed f)"
        if "normalize_cart xs = Inl x" for xs
        using that by (induction xs) (auto split: option.splits sum.splits)
      with Inl have "\<exists>m. x = ValueError m \<and> (\<forall>f. m \<noteq> CheckoutProcessingFailed f)" by blast
      moreover from assms nonempty Inr Inl have "e = x" "s' = s"
        by (auto simp: process_checkout_def)
      ultimately show ?thesis by auto
    next
      case cart: (Inr cart)
      from assms nonempty Inr cart obtain f s1 where
        tx: "checkout_transaction fails tax s shop user cart mode method' cust = (Inl f, s1)"
        and e: "e = ValueError (CheckoutProcessingFailed f)" and s': "s' = rollback s1"
        by (auto simp: process_checkout_def split: sum.splits prod.splits)
      from checkout_transaction_Inl [OF tx] have "committed s1 = committed s" .
      then have "rollback s1 = rollback s" by (simp add: rollback_def)
      with e s' show ?thesis by (simp add: rollback_def)
    qed
  qed
qed

theorem failed_checkout_changes_nothing_witness:
  "(let (out, s') = process_checkout no_fault demo_rate demo_session 1 7
           [raw_line 1 3 10, raw_line 2 1 10] ''pay_now'' (Some ''cash'') None
    in out = Inl (ValueError (CheckoutProcessingFailed (ProductNotFound 2)))
       \<and> committed s' = committed demo_session
       \<and> s' = rollback demo_session)"
proof -
  define out where "out = process_checkout no_fault demo_rate demo_session 1 7
           [raw_line 1 3 10, raw_line 2 1 10] ''pay_now'' (Some ''cash'') None"
  have "fst out = Inl (ValueError (CheckoutProcessingFailed (ProductNotFound 2)))"
    unfolding out_def by code_simp
  then have run: "process_checkout no_fault demo_rate demo_session 1 7
           [raw_line 1 3 10, raw_line 2 1 10] ''pay_now'' (Some ''cash'') None
         = (Inl (ValueError (CheckoutProcessingFailed (ProductNotFound 2))), snd out)"
    unfolding out_def [symmetric] by (cases out) simp
  from failed_checkout_changes_nothing [OF run] run show ?thesis
    unfolding out_def [symmetric] by (cases out) auto
qed

subsection \<open>Status by payment mode\<close>

text \<open>
  C3. A successful checkout with \<^verbatim>\<open>pay_now\<close> reports status \<open>COMPLETED\<close> and
  \<open>is_paid\<close>; with \<^verbatim>\<open>pay_later\<close> it reports \<open>PENDING\<close>, unpaid, and the sale row it
  wrote carries \<^verbatim>\<open>pay_on_delivery\<close> whatever method the caller gave. No other mode
  succeeds.
\<close>

theorem checkout_mode_decides_status:
  assumes run: "process_checkout fails tax s shop user raw mode method cust = (Inr r, s')"
  shows "(mode = ''pay_now'' \<or> mode = ''pay_later'')
       \<and> (mode = ''pay_now'' \<longrightarrow> res_status r = COMPLETED \<and> res_is_paid r)
       \<and> (mode = ''pay_later'' \<longrightarrow> res_status r = PENDING \<and> \<not> res_is_paid r
            \<and> sale_payment_method (last (sale_rows (committed s'))) = Some ''pay_on_delivery'')
       \<and> sale_id (last (sale_rows (committed s'))) = res_sale_id r
       \<and> sale_payment_mode (last (sale_rows (committed s'))) = mode"
proof -
  from process_checkout_Inr [OF run] obtain cart method' where
    pay: "check_payment mode method cust = Inr method'"
    and tx: "checkout_transaction fails tax s shop user cart mode method' cust = (Inr r, s')"
    by auto
  from pay have mode: "mode = ''pay_now'' \<or> mode = ''pay_later''"
    and later: "mode = ''pay_later'' \<longrightarrow> method' = Some ''pay_on_delivery''"
    by (auto simp: check_payment_def split: if_splits)
  from checkout_transaction_Inr [OF tx] later mode show ?thesis by auto
qed

theorem checkout_mode_decides_status_witness:
  "(let (res, s') = process_checkout no_fault demo_rate demo_session 1 7
           [raw_line 1 3 10] ''pay_later'' None (Some demo_customer);
        r = projr res
    in res_status r = PENDING \<and> \<not> res_is_paid r
       \<and> sale_payment_method (last (sale_rows (committed s'))) = Some ''pay_on_delivery'')"
proof -
  define out where "out = process_checkout no_fault demo_rate demo_session 1 7
           [raw_line 1 3 10] ''pay_later'' None (Some demo_customer)"
  have "case fst out of Inr _ \<Rightarrow> True | Inl _ \<Rightarrow> False" unfolding out_def by code_simp
  then have run: "process_checkout no_fault demo_rate demo_session 1 7
           [raw_line 1 3 10] ''pay_later'' None (Some demo_customer) = (Inr (projr (fst out)), snd out)"
    unfolding out_def [symmetric] by (cases out) (auto split: sum.splits)
  from checkout_mode_decides_status [OF run] show ?thesis
    unfolding out_def [symmetric] by (simp add: case_prod_unfold)
qed

subsection \<open>Tax, total and profit\<close>









section \<open>The validation pairing law\<close>

text \<open>
  C4. The checkout-request validator accepts a triple of payment mode, payment method and
  customer name exactly when the pairing law holds, and rejects every other triple with a
  \<^verbatim>\<open>ValidationError\<close>.
\<close>

theorem load_checkout_pairing_law:
  "(\<exists>data'. load_checkout \<lparr>cf_payment_mode = payment_mode, cf_payment_method = payment_method,
                             cf_customer_name = customer_name\<rparr> = Inr data')
     = pairing_law payment_mode payment_method customer_name
   \<and> (\<exists>errors. load_checkout \<lparr>cf_payment_mode = payment_mode, cf_payment_method = payment_method,
                                cf_customer_name = customer_name\<rparr> = Inl (ValidationError errors))
     = (\<not> pairing_law payment_mode payment_method customer_name)"
proof -
  define data where "data = \<lparr>cf_payment_mode = payment_mode, cf_payment_method = payment_method,
                               cf_customer_name = customer_name\<rparr>"
  have name: "truthy customer_name = (case customer_name of Some n \<Rightarrow> n \<noteq> [] | None \<Rightarrow> False)"
    by (simp add: truthy_def)
  show ?thesis
  proof (cases "pairing_law payment_mode payment_method customer_name")
    case True
    then have "\<exists>data'. load_checkout data = Inr data'"
      unfolding pairing_law_def name [symmetric]
      by (auto simp: data_def load_checkout_def validate_payment_mode_field_def
            validate_payment_method_field_def validate_payment_fields_def truthy_def)
    with True show ?thesis unfolding data_def by auto
  next
    case False
    have "\<exists>errors. load_checkout data = Inl (ValidationError errors)"
    proof (cases "validate_payment_mode_field payment_mode @
                  validate_payment_method_field payment_method")
      case (Cons e es)
      then show ?thesis by (simp add: data_def load_checkout_def)
    next
      case Nil
      then have mode: "payment_mode = Some ''pay_now'' \<or> payment_mode = Some ''pay_later''"
        and meth: "payment_method = None \<or> payment_method = Some ''cash''
                   \<or> payment_method = Some ''mobile'' \<or> payment_method = Some ''pay_on_delivery''"
        by (auto simp: validate_payment_mode_field_def validate_payment_method_field_def
              split: option.splits if_splits)
      from False mode meth Nil show ?thesis
        unfolding pairing_law_def name [symmetric]
        by (auto simp: data_def load_checkout_def validate_payment_fields_def truthy_def)
    qed
    with False show ?thesis unfolding data_def by auto
  qed
qed

section \<open>Shop resolution priority\<close>

lemma first_match_four:
  "first_match [a, b, c, d] =
     (case a of Some x \<Rightarrow> Some x | None \<Rightarrow>
     (case b of Some x \<Rightarrow> Some x | None \<Rightarrow>
     (case c of Some x \<Rightarrow> Some x | None \<Rightarrow> d)))"
  by (cases a; cases b; cases c; cases d) simp_all

lemma from_shop_slug_source:
  "from_shop_slug db req = (case shop_slug_source db req of Some found \<Rightarrow> found | None \<Rightarrow> None)"
  by (auto simp: from_shop_slug_def shop_slug_source_def truthy_def split: option.splits)

lemma from_shop_id_source:
  "from_shop_id db req =
     (case shop_id_source db req of Some found \<Rightarrow> found | None \<Rightarrow> from_shop_slug db req)"
  by (auto simp: from_shop_id_def shop_id_source_def truthy_def split: option.splits)

lemma from_subdomain_source:
  "from_subdomain db req (request_host req) =
     (case subdomain_source db req of Some found \<Rightarrow> found | None \<Rightarrow> from_shop_id db req)"
  by (auto simp: from_subdomain_def subdomain_source_def Let_def split: option.splits)

lemma get_shop_from_request_refines:
  "get_shop_from_request db req = resolve_in_order db req"
  unfolding get_shop_from_request_def resolve_in_order_def first_match_four Let_def
    from_subdomain_source from_shop_id_source from_shop_slug_source
  by (simp add: custom_domain_source_def split: option.splits)

text \<open>
  C7. \<^verbatim>\<open>get_shop_from_request\<close> tries the custom domain, the subdomain (for a host
  with a dot whose leftmost label is not reserved), the \<^verbatim>\<open>shop_id\<close> parameter (for
  a shop with active homepage settings) and the \<^verbatim>\<open>shop_slug\<close> parameter (for an
  active shop) in this order, and the first that matches decides. So a custom-domain match
  wins whatever \<^verbatim>\<open>shop_id\<close> says, and when no settings match the host and no
  \<^verbatim>\<open>shop_id\<close> is given, the slug resolves the shop.
\<close>

theorem get_shop_from_request_priority:
  "get_shop_from_request db req = resolve_in_order db req
   \<and> (\<forall>hs. settings_by_custom_domain db (request_host req) = Some hs
         \<longrightarrow> get_shop_from_request db req = settings_shop db hs)
   \<and> (\<forall>slug s. settings_by_custom_domain db (request_host req) = None
           \<and> settings_by_subdomain db (leftmost_label (request_host req)) = None
           \<and> arg_shop_id req = None
           \<and> arg_shop_slug req = Some slug \<and> slug \<noteq> []
           \<and> shop_by_slug db slug = Some s
         \<longrightarrow> get_shop_from_request db req = Some s)"
proof (intro conjI allI impI)
  show "get_shop_from_request db req = resolve_in_order db req"
    by (rule get_shop_from_request_refines)
next
  fix hs
  assume "settings_by_custom_domain db (request_host req) = Some hs"
  then show "get_shop_from_request db req = settings_shop db hs"
    by (simp add: get_shop_from_request_def)
next
  fix slug s
  assume a: "settings_by_custom_domain db (request_host req) = None
           \<and> settings_by_subdomain db (leftmost_label (request_host req)) = None
           \<and> arg_shop_id req = None
           \<and> arg_shop_slug req = Some slug \<and> slug \<noteq> []
           \<and> shop_by_slug db slug = Some s"
  then have "from_shop_slug db req = Some s"
    by (simp add: from_shop_slug_def truthy_def)
  moreover from a have "from_shop_id db req = from_shop_slug db req"
    by (simp add: from_shop_id_def truthy_def)
  moreover from a have "from_subdomain db req (request_host req) = from_shop_id db req"
    by (simp add: from_subdomain_def Let_def)
  ultimately show "get_shop_from_request db req = Some s"
    using a by (simp add: get_shop_from_request_def)
qed

theorem get_shop_from_request_priority_witness:
  "get_shop_from_request demo_site
     \<lparr>host_header = Some ''tea.example'', arg_shop_id = Some ''2'', arg_shop_slug = None\<rparr>
     = Some \<lparr>shop_id = 1, shop_slug = ''shop1'', shop_is_active = True\<rparr>
   \<and> get_shop_from_request demo_site
     \<lparr>host_header = Some ''shop1.example.com'', arg_shop_id = None, arg_shop_slug = Some ''shop1''\<rparr>
     = Some \<lparr>shop_id = 1, shop_slug = ''shop1'', shop_is_active = True\<rparr>"
proof -
  define r1 where "r1 = \<lparr>host_header = Some ''tea.example'', arg_shop_id = Some ''2'',
                          arg_shop_slug = None\<rparr>"
  define r2 where "r2 = \<lparr>host_header = Some ''shop1.example.com'', arg_shop_id = None,
                          arg_shop_slug = Some ''shop1''\<rparr>"
  define hs1 where "hs1 = \<lparr>hs_shop_id = 1, hs_subdomain = None,
                            hs_custom_domain = Some ''tea.example'', hs_is_active = True\<rparr>"
  define s1 where "s1 = \<lparr>shop_id = 1, shop_slug = ''shop1'', shop_is_active = True\<rparr>"
  have m1: "settings_by_custom_domain demo_site (request_host r1) = Some hs1"
    unfolding r1_def hs1_def by code_simp
  have sh1: "settings_shop demo_site hs1 = Some s1"
    unfolding hs1_def s1_def by code_simp
  have m2: "settings_by_custom_domain demo_site (request_host r2) = None
           \<and> settings_by_subdomain demo_site (leftmost_label (request_host r2)) = None
           \<and> arg_shop_id r2 = None
           \<and> arg_shop_slug r2 = Some ''shop1'' \<and> ''shop1'' \<noteq> []
           \<and> shop_by_slug demo_site ''shop1'' = Some s1"
    unfolding r2_def s1_def by code_simp
  from get_shop_from_request_priority [of demo_site r1] m1 sh1
  have "get_shop_from_request demo_site r1 = Some s1" by metis
  moreover from get_shop_from_request_priority [of demo_site r2] m2
  have "get_shop_from_request demo_site r2 = Some s1" by blast
  ultimately show ?thesis unfolding r1_def r2_def s1_def by simp
qed

section \<open>The daily summary cannot be computed\<close>

text \<open>
  C8. The daily-summary operation returns nothing: on every input its first statement
  reads \<^verbatim>\<open>timedelta\<close>, which \<^verbatim>\<open>services.py\<close> never binds, and raises
  \<^verbatim>\<open>NameError\<close>.
\<close>

theorem get_daily_sales_summary_raises:
  "get_daily_sales_summary services_globals now sale_entries shop days
     = Inl (NameError ''timedelta'')"
  by (simp add: get_daily_sales_summary_def load_global_def services_globals_def)

section \<open>The tax cache bound\<close>

lemma lru_cache_call_keys:
  assumes "0 < maxsize"
  shows "map fst (snd (lru_cache_call maxsize f cache key)) =
           (if key \<in> set (map fst cache) then key # filter (\<lambda>k. k \<noteq> key) (map fst cache)
            else key # (if maxsize \<le> length cache then butlast (map fst cache)
                        else map fst cache))"
proof (cases "map_of cache key")
  case None
  then have "key \<notin> set (map fst cache)" by (simp add: map_of_eq_None_iff)
  with None assms show ?thesis
    by (simp add: lru_cache_call_def Let_def map_butlast)
next
  case (Some v)
  then have "key \<in> set (map fst cache)" by (force dest: map_of_SomeD)
  with Some assms show ?thesis
    by (simp add: lru_cache_call_def filter_map comp_def)
qed

lemma take_filter_hit:
  assumes "distinct xs" "k \<in> set (take (Suc n) xs)"
  shows "take n (filter (\<lambda>x. x \<noteq> k) xs) = filter (\<lambda>x. x \<noteq> k) (take (Suc n) xs)"
  using assms
proof (induction xs arbitrary: n)
  case Nil
  then show ?case by simp
next
  case (Cons x xs)
  show ?case
  proof (cases "x = k")
    case True
    with Cons.prems have "k \<notin> set xs" by simp
    then have "filter (\<lambda>x. x \<noteq> k) xs = xs" "filter (\<lambda>x. x \<noteq> k) (take n xs) = take n xs"
      by (auto simp: filter_id_conv dest: in_set_takeD)
    with True show ?thesis by simp
  next
    case False
    with Cons.prems obtain m where n: "n = Suc m" and "k \<in> set (take (Suc m) xs)"
      by (cases n) auto
    with Cons.IH [of m] Cons.prems False show ?thesis by simp
  qed
qed

lemma take_filter_miss:
  assumes "k \<notin> set (take n xs)"
  shows "take n (filter (\<lambda>x. x \<noteq> k) xs) = take n xs"
  using assms
proof (induction xs arbitrary: n)
  case Nil
  then show ?case by simp
next
  case (Cons x xs)
  then show ?case by (cases n) auto
qed

lemma remdups_snoc:
  "remdups (xs @ [k]) = filter (\<lambda>x. x \<noteq> k) (remdups xs) @ [k]"
  by (induction xs) auto

lemma by_recency_snoc:
  "by_recency (history @ [(taxes, shop)]) = shop # filter (\<lambda>k. k \<noteq> shop) (by_recency history)"
proof -
  have "remdups (map snd history @ [shop]) =
          filter (\<lambda>k. k \<noteq> shop) (remdups (map snd history)) @ [shop]"
    by (rule remdups_snoc)
  then show ?thesis by (simp add: by_recency_def rev_filter)
qed

lemma cache_after_snoc:
  "cache_after (history @ [(taxes, shop)]) = snd (get_tax_rate taxes (cache_after history) shop)"
  by (simp add: cache_after_def)

lemma cache_keys_by_recency:
  "map fst (cache_after history) = take 32 (by_recency history)"
proof (induction history rule: rev_induct)
  case Nil
  then show ?case by (simp add: cache_after_def by_recency_def)
next
  case (snoc e history)
  obtain taxes shop where e: "e = (taxes, shop)" by (cases e)
  define r where "r = by_recency history"
  define c where "c = cache_after history"
  have keys: "map fst c = take 32 r" unfolding c_def r_def by (rule snoc.IH)
  have dist: "distinct r" unfolding r_def by_recency_def by simp
  have len: "length c = min (length r) 32"
    using arg_cong [OF keys, of length] by simp
  have step: "map fst (cache_after (history @ [e])) =
      (if shop \<in> set (take 32 r) then shop # filter (\<lambda>k. k \<noteq> shop) (take 32 r)
       else shop # (if 32 \<le> length c then butlast (take 32 r) else take 32 r))"
    unfolding e cache_after_snoc get_tax_rate_def c_def [symmetric]
    by (simp add: lru_cache_call_keys keys)
  have goal: "by_recency (history @ [e]) = shop # filter (\<lambda>k. k \<noteq> shop) r"
    unfolding e r_def by (rule by_recency_snoc)
  show ?case
  proof (cases "shop \<in> set (take 32 r)")
    case True
    from take_filter_hit [OF dist, of shop 31] True
    have "take 31 (filter (\<lambda>k. k \<noteq> shop) r) = filter (\<lambda>k. k \<noteq> shop) (take 32 r)" by simp
    with True show ?thesis unfolding step goal by simp
  next
    case False
    then have "shop \<notin> set (take 31 r)"
      using set_take_subset_set_take [of 31 32 r] by auto
    from take_filter_miss [OF this]
    have miss: "take 31 (filter (\<lambda>k. k \<noteq> shop) r) = take 31 r" .
    show ?thesis
    proof (cases "32 \<le> length c")
      case True
      with len have "32 \<le> length r" by simp
      then have "butlast (take 32 r) = take 31 r" by (simp add: butlast_take)
      with False True miss show ?thesis unfolding step goal by simp
    next
      case short: False
      with len have "length r < 32" by simp
      then have "take 32 r = r" "take 31 r = r" by simp_all
      with False short miss show ?thesis unfolding step goal by simp
    qed
  qed
qed

text \<open>
  C9. Whatever the history of lookups, the cache of \<^verbatim>\<open>get_tax_rate\<close> holds at most 32
  entries, one for each of the 32 most recently looked up shop ids, the most recent first.
  When it holds 32 and another shop id is looked up, the entry at the back, the one whose
  last lookup is the oldest, leaves the cache and the others stay.
\<close>

theorem tax_cache_bound:
  "length (cache_after history) \<le> 32
   \<and> map fst (cache_after history) = take 32 (by_recency history)
   \<and> (\<forall>taxes shop.
        length (cache_after history) = 32 \<and> shop \<notin> set (map fst (cache_after history))
        \<longrightarrow> map fst (cache_after (history @ [(taxes, shop)]))
              = shop # butlast (map fst (cache_after history))
            \<and> last (map fst (cache_after history))
              \<notin> set (map fst (cache_after (history @ [(taxes, shop)]))))"
proof (intro conjI allI impI)
  have "length (map fst (cache_after history)) \<le> 32"
    unfolding cache_keys_by_recency by simp
  then show "length (cache_after history) \<le> 32" by simp
next
  show "map fst (cache_after history) = take 32 (by_recency history)"
    by (rule cache_keys_by_recency)
next
  fix taxes shop
  assume a: "length (cache_after history) = 32 \<and> shop \<notin> set (map fst (cache_after history))"
  define ks where "ks = map fst (cache_after history)"
  from a have full: "length ks = 32" and new: "shop \<notin> set ks" by (simp_all add: ks_def)
  have dist: "distinct ks"
    unfolding ks_def cache_keys_by_recency by_recency_def by simp
  from a show step: "map fst (cache_after (history @ [(taxes, shop)])) = shop # butlast ks"
    unfolding cache_after_snoc get_tax_rate_def ks_def by (simp add: lru_cache_call_keys)
  from full have ne: "ks \<noteq> []" by auto
  then have split: "ks = butlast ks @ [last ks]" by simp
  with dist have "last ks \<notin> set (butlast ks)"
    by (metis distinct_append disjoint_iff list.set_intros(1))
  moreover from ne new have "last ks \<noteq> shop" using last_in_set by metis
  ultimately show "last ks \<notin> set (map fst (cache_after (history @ [(taxes, shop)])))"
    unfolding step by simp
qed

theorem tax_cache_bound_witness:
  "map fst (cache_after (map (Pair []) [1..32] @ [([], 33)]))
     = 33 # butlast (map fst (cache_after (map (Pair []) [1..32])))
   \<and> 1 \<notin> set (map fst (cache_after (map (Pair []) [1..32] @ [([], 33)])))
   \<and> map fst (cache_after (map (Pair []) [1..32])) = rev [1..32]"
proof -
  have full: "length (cache_after (map (Pair []) [1..32])) = 32
              \<and> 33 \<notin> set (map fst (cache_after (map (Pair []) [1..32])))"
    by code_simp
  have oldest: "last (map fst (cache_after (map (Pair []) [1..32]))) = 1"
    by code_simp
  have keys: "map fst (cache_after (map (Pair []) [1..32])) = rev [1..32]"
    by code_simp
  from tax_cache_bound [of "map (Pair []) [1..32]"] full oldest keys
  show ?thesis by metis
qed

end
